theory Spec2Isabelle
  imports Main
begin

section \<open>Text\<close>

text \<open>
  A Python \<open>str\<close> is a sequence of code points. The embedding uses \<^typ>\<open>string\<close>, whose
  characters are the code points below 256 (Latin-1), so every function below is the
  source's function restricted to such text. The style sheets, family names and file
  names of the examples are ASCII.
\<close>

text \<open>
  \<open>str.lower()\<close>: on Latin-1 the cased upper letters are \<open>A..Z\<close> (65..90) and
  \<open>0xC0..0xDE\<close> without the multiplication sign \<open>0xD7\<close>; each is mapped to the code point
  32 above it, which sets bit 5 of the character.
\<close>

definition isupper :: "char \<Rightarrow> bool" where
  "isupper c = (let n = (of_char c :: nat) in
     (65 \<le> n \<and> n \<le> 90) \<or> (192 \<le> n \<and> n \<le> 222 \<and> n \<noteq> 215))"

fun lower_char :: "char \<Rightarrow> char" where
  "lower_char (Char b0 b1 b2 b3 b4 b5 b6 b7) =
     (if isupper (Char b0 b1 b2 b3 b4 b5 b6 b7) then Char b0 b1 b2 b3 b4 True b6 b7
      else Char b0 b1 b2 b3 b4 b5 b6 b7)"

definition lower :: "string \<Rightarrow> string" where
  "lower s = map lower_char s"

text \<open>\<open>str.replace(old, new)\<close> for single characters.\<close>

definition replace_char :: "char \<Rightarrow> char \<Rightarrow> string \<Rightarrow> string" where
  "replace_char old new s = map (\<lambda>c. if c = old then new else c) s"

text \<open>\<open>str.startswith\<close> and \<open>str.endswith\<close>.\<close>

fun startswith :: "string \<Rightarrow> string \<Rightarrow> bool" where
  "startswith s [] = True"
| "startswith [] (p # ps) = False"
| "startswith (c # cs) (p # ps) = (c = p \<and> startswith cs ps)"

definition endswith :: "string \<Rightarrow> string \<Rightarrow> bool" where
  "endswith s suf = startswith (rev s) (rev suf)"

text \<open>
  The remainder of \<open>s\<close> after the literal \<open>p\<close>, when \<open>s\<close> starts with it: how a regular
  expression consumes a literal.
\<close>

fun after_literal :: "string \<Rightarrow> string \<Rightarrow> string option" where
  "after_literal [] s = Some s"
| "after_literal (p # ps) [] = None"
| "after_literal (p # ps) (c # cs) = (if c = p then after_literal ps cs else None)"

text \<open>
  The classes \<open>\s\<close> and \<open>\d\<close> of a \<open>str\<close> pattern: Unicode white space and Unicode
  decimal digits, which below 256 are the twelve characters listed and \<open>0..9\<close>.
\<close>

definition isspace :: "char \<Rightarrow> bool" where
  "isspace c = (c \<in> set [CHR 0x09, CHR 0x0A, CHR 0x0B, CHR 0x0C, CHR 0x0D,
                           CHR 0x1C, CHR 0x1D, CHR 0x1E, CHR 0x1F, CHR 0x20,
                           CHR 0x85, CHR 0xA0])"

definition isdigit :: "char \<Rightarrow> bool" where
  "isdigit c = (c \<in> set ''0123456789'')"

text \<open>
  \<open>int(s)\<close> on a non-empty run of decimal digits. The interpreter's limit on the length
  of a digit string (a \<open>ValueError\<close> beyond some thousand digits) is not modelled.
\<close>

definition digit_value :: "char \<Rightarrow> int" where
  "digit_value c = int (of_char c) - 48"

definition int_of_digits :: "string \<Rightarrow> int" where
  "int_of_digits ds = foldl (\<lambda>n c. 10 * n + digit_value c) 0 ds"

section \<open>Dictionaries\<close>

text \<open>
  A Python \<open>dict\<close> keeps its keys in insertion order, and three places of the source
  depend on that order (\<open>min\<close> over the keys, the first value of \<open>font_files\<close>, the order
  of \<open>weight_patterns\<close>). A dictionary is an association list in insertion order; assigning
  to a key that is present replaces the value where it stands.
\<close>

type_synonym ('k, 'v) dict = "('k \<times> 'v) list"

fun dict_set :: "('k, 'v) dict \<Rightarrow> 'k \<Rightarrow> 'v \<Rightarrow> ('k, 'v) dict" where
  "dict_set [] k v = [(k, v)]"
| "dict_set ((k', v') # d) k v =
     (if k' = k then (k, v) # d else (k', v') # dict_set d k v)"

definition dict_get :: "('k, 'v) dict \<Rightarrow> 'k \<Rightarrow> 'v option" where
  "dict_get d k = map_of d k"

definition dict_keys :: "('k, 'v) dict \<Rightarrow> 'k list" where
  "dict_keys d = map fst d"

definition dict_values :: "('k, 'v) dict \<Rightarrow> 'v list" where
  "dict_values d = map snd d"

definition dict_has :: "('k, 'v) dict \<Rightarrow> 'k \<Rightarrow> bool" where
  "dict_has d k = (dict_get d k \<noteq> None)"

text \<open>Truthiness of an optional string: \<open>None\<close> and the empty string are false.\<close>

fun truthy :: "string option \<Rightarrow> bool" where
  "truthy None = False"
| "truthy (Some s) = (s \<noteq> [])"

text \<open>
  \<open>min(xs, key=f)\<close> on a non-empty sequence: the scan keeps the element seen so far and
  replaces it only by a strictly smaller one, so of several minimal elements the first
  is returned.
\<close>

fun min_scan :: "('a \<Rightarrow> int) \<Rightarrow> 'a \<Rightarrow> 'a list \<Rightarrow> 'a" where
  "min_scan f b [] = b"
| "min_scan f b (x # xs) = min_scan f (if f x < f b then x else b) xs"

definition min_by :: "('a \<Rightarrow> int) \<Rightarrow> 'a list \<Rightarrow> 'a option" where
  "min_by f xs = (case xs of [] \<Rightarrow> None | x # xs' \<Rightarrow> Some (min_scan f x xs'))"

section \<open>The style sheet\<close>

text \<open>
  \<open>re.split(r"@font-face\s*\{", css_content)\<close>. A match at the head of \<open>s\<close> is the literal
  \<open>@font-face\<close>, all the white space that follows (the star is greedy, and an opening brace
  is not white space, so giving white space back never helps), and an opening brace.
\<close>

definition match_font_face :: "string \<Rightarrow> string option" where
  "match_font_face s =
     (case after_literal ''@font-face'' s of
        None \<Rightarrow> None
      | Some r \<Rightarrow> (case dropWhile isspace r of
                     [] \<Rightarrow> None
                   | c # t \<Rightarrow> if c = CHR ''{'' then Some t else None))"

lemma after_literal_length: "after_literal p s = Some r \<Longrightarrow> length s = length p + length r"
  by (induction p s rule: after_literal.induct) (auto split: if_splits)

lemma match_font_face_shorter: "match_font_face s = Some t \<Longrightarrow> length t < length s"
proof -
  assume m: "match_font_face s = Some t"
  then obtain r where r: "after_literal ''@font-face'' s = Some r"
    by (auto simp: match_font_face_def split: option.splits)
  with m obtain c where c: "dropWhile isspace r = c # t"
    by (auto simp: match_font_face_def split: list.splits if_splits)
  have "length (dropWhile isspace r) \<le> length r"
    by (rule length_dropWhile_le)
  with c have "length t < length r" by simp
  with after_literal_length [OF r] show ?thesis by simp
qed

text \<open>
  The pieces between the non-overlapping matches, scanned from the left; \<open>acc\<close> holds the
  current piece reversed.
\<close>

function re_split :: "string \<Rightarrow> string \<Rightarrow> string list" where
  "re_split acc [] = [rev acc]"
| "re_split acc (c # cs) =
     (case match_font_face (c # cs) of
        Some t \<Rightarrow> rev acc # re_split [] t
      | None \<Rightarrow> re_split (c # acc) cs)"
  by pat_completeness auto
termination
  by (relation "measure (\<lambda>(acc, s). length s)") (auto dest: match_font_face_shorter)

text \<open>
  \<open>re.search(r"font-weight:\s*(\d+)", block)\<close>: at the leftmost position where the literal
  is followed by white space and at least one digit, group 1 is the whole run of digits
  (white space and digits are disjoint, so the greedy choices are the only ones).
\<close>

definition weight_match_here :: "string \<Rightarrow> string option" where
  "weight_match_here s =
     (case after_literal ''font-weight:'' s of
        None \<Rightarrow> None
      | Some r \<Rightarrow> (let ds = takeWhile isdigit (dropWhile isspace r)
                   in if ds = [] then None else Some ds))"

fun weight_match :: "string \<Rightarrow> string option" where
  "weight_match [] = weight_match_here []"
| "weight_match (c # cs) =
     (case weight_match_here (c # cs) of Some ds \<Rightarrow> Some ds | None \<Rightarrow> weight_match cs)"

text \<open>
  \<open>re.search(r"url\((https://[^)]+\.(woff2|ttf))\)", block)\<close>. After the literal
  \<open>url(https://\<close> the class \<open>[^)]+\<close> can only stay inside the run of characters before the
  next closing parenthesis, and the pattern ends with a closing parenthesis right after the
  extension; so there is a match at a position exactly when that run is followed by a
  closing parenthesis and ends in \<open>.woff2\<close> or \<open>.ttf\<close> with at least one character before
  the dot. Group 1 is \<open>https://\<close> and the run. The search returns the match at the
  leftmost such position.
\<close>

definition url_match_here :: "string \<Rightarrow> string option" where
  "url_match_here s =
     (case after_literal ''url(https://'' s of
        None \<Rightarrow> None
      | Some r \<Rightarrow>
          (let run = takeWhile (\<lambda>c. c \<noteq> CHR '')'') r;
               rest = dropWhile (\<lambda>c. c \<noteq> CHR '')'') r
           in if rest \<noteq> [] \<and>
                 ((endswith run ''.woff2'' \<and> length ''.woff2'' < length run) \<or>
                  (endswith run ''.ttf'' \<and> length ''.ttf'' < length run))
              then Some (''https://'' @ run) else None))"

fun url_match :: "string \<Rightarrow> string option" where
  "url_match [] = url_match_here []"
| "url_match (c # cs) =
     (case url_match_here (c # cs) of Some u \<Rightarrow> Some u | None \<Rightarrow> url_match cs)"

text \<open>
  Lines 55 to 71 of \<open>download_google_font\<close>: the loop over the blocks after the first
  piece. A block without a weight, or without a URL, leaves the mapping as it is.
\<close>

definition parse_block :: "(int, string) dict \<Rightarrow> string \<Rightarrow> (int, string) dict" where
  "parse_block weight_url_map block =
     (case weight_match block of
        None \<Rightarrow> weight_url_map
      | Some ds \<Rightarrow>
          (let weight = int_of_digits ds
           in case url_match block of
                None \<Rightarrow> weight_url_map
              | Some url \<Rightarrow> dict_set weight_url_map weight url))"

definition font_face_blocks :: "string \<Rightarrow> string list" where
  "font_face_blocks css_content = re_split [] css_content"

definition parse_css :: "string \<Rightarrow> (int, string) dict" where
  "parse_css css_content = foldl parse_block [] (tl (font_face_blocks css_content))"

text \<open>The weight a block declares: the integer that line 66 reads from it.\<close>

definition block_weight :: "string \<Rightarrow> int option" where
  "block_weight block = map_option int_of_digits (weight_match block)"

section \<open>The world outside the program\<close>

text \<open>
  Exceptions are values. \<open>requests.get\<close> raises on a timeout or a failure of the
  connection, and otherwise returns a response with its status code and body;
  \<open>raise_for_status\<close> raises \<open>HTTPError\<close> for a status from 400 to 599 and for no other.
\<close>

datatype exn = Timeout | ConnectionError | HTTPError int | OSError

datatype http_result = Raises exn | Response int string

definition raise_for_status :: "int \<Rightarrow> exn option" where
  "raise_for_status status =
     (if 400 \<le> status \<and> status < 600 then Some (HTTPError status) else None)"

text \<open>What a function call does: it returns a value or it raises.\<close>

datatype 'a outcome = Returned 'a | Raised exn

text \<open>
  The file system maps a path, as the program writes it, to what is there: a regular file
  with its content, a directory with the names of its entries in the order \<open>iterdir\<close>
  yields them, or something that is neither.
\<close>

datatype node = File string | Dir "string list" | Special

type_synonym files = "string \<Rightarrow> node option"

text \<open>
  The answers of the network and of the operating system, which the program cannot
  influence: the reply to the style-sheet request for a family and its weights, the reply to
  the request for an asset URL, whether creating the cache directory raises, whether
  writing a file at a path raises, and the components of the absolute path that
  \<open>Path(p).expanduser().resolve()\<close> gives for \<open>p\<close>.
\<close>

record env =
  css_reply :: "string \<Rightarrow> int list \<Rightarrow> http_result"
  asset_reply :: "string \<Rightarrow> http_result"
  mkdir_cache :: "exn option"
  write_bytes :: "string \<Rightarrow> exn option"
  resolve :: "string \<Rightarrow> string list"

text \<open>
  What a call does to the outside, in order: the lines it prints and the requests it sends.
  Each \<open>print\<close> of the source is a constructor that carries the values the line
  interpolates.
\<close>

datatype msg =
    Using_weight int string int
  | Downloading string string int
  | Failed_download string exn
  | Using_cached string string
  | Used_as_regular string
  | Regular_as_bold
  | Regular_as_light
  | Error_downloading string exn
  | Path_missing string
  | Unsupported_format string
  | Loaded_font string
  | No_font_files string
  | Loaded_directory string
  | Weight_file string string
  | No_suitable_fonts string
  | Invalid_path string
  | Loading_google_font string
  | Font_loaded string
  | Failed_family string
  | Failed_font_path
  | Font_not_found string

datatype event = Print msg | Get_css string "int list" | Get_asset string

text \<open>The lines the source marks with the warning sign are its diagnostics.\<close>

fun is_diagnostic :: "msg \<Rightarrow> bool" where
  "is_diagnostic (Failed_download _ _) = True"
| "is_diagnostic (Error_downloading _ _) = True"
| "is_diagnostic (Path_missing _) = True"
| "is_diagnostic (Unsupported_format _) = True"
| "is_diagnostic (No_font_files _) = True"
| "is_diagnostic (No_suitable_fonts _) = True"
| "is_diagnostic (Invalid_path _) = True"
| "is_diagnostic (Failed_family _) = True"
| "is_diagnostic Failed_font_path = True"
| "is_diagnostic (Font_not_found _) = True"
| "is_diagnostic _ = False"

text \<open>
  \<open>os.path.join\<close> of two parts on POSIX, which is also how \<open>pathlib\<close> joins; the
  normalisation \<open>pathlib\<close> adds (doubled separators, dot components) is not modelled.
\<close>

definition joinpath :: "string \<Rightarrow> string \<Rightarrow> string" where
  "joinpath a b =
     (if startswith b ''/'' then b
      else if a = [] \<or> endswith a ''/'' then a @ b
      else a @ ''/'' @ b)"

definition FONTS_DIR :: string where
  "FONTS_DIR = ''fonts''"

definition FONTS_CACHE_DIR :: string where
  "FONTS_CACHE_DIR = joinpath FONTS_DIR ''cache''"

text \<open>A font set under construction: the dictionary \<open>font_files\<close>.\<close>

type_synonym fontset = "(string, string) dict"

section \<open>download_google_font\<close>

definition weight_map :: "(int, string) dict" where
  "weight_map = [(300, ''light''), (400, ''regular''), (700, ''bold'')]"

definition weight_key_of :: "int \<Rightarrow> string" where
  "weight_key_of weight =
     (case dict_get weight_map weight of Some k \<Rightarrow> k | None \<Rightarrow> ''regular'')"

text \<open>
  Lines 81 to 92: the URL for a weight, the closest weight standing in when the exact one
  has none. The subscript \<open>weight_url_map[closest_weight]\<close> cannot fail, the key coming from
  the mapping itself.
\<close>

definition find_weight_url ::
  "(int, string) dict \<Rightarrow> string \<Rightarrow> int \<Rightarrow> string option \<times> event list" where
  "find_weight_url weight_url_map weight_key weight =
     (let weight_url = dict_get weight_url_map weight
      in if \<not> truthy weight_url \<and> weight_url_map \<noteq> [] then
           (case min_by (\<lambda>x. \<bar>x - weight\<bar>) (dict_keys weight_url_map) of
              None \<Rightarrow> (weight_url, [])
            | Some closest_weight \<Rightarrow>
                (dict_get weight_url_map closest_weight,
                 [Print (Using_weight closest_weight weight_key weight)]))
         else (weight_url, []))"

text \<open>
  Lines 104 to 110, the inner \<open>try\<close>: request the asset, check the status, write the
  bytes. Any exception is handed to the handler of the caller.
\<close>

definition fetch_asset :: "env \<Rightarrow> string \<Rightarrow> string \<Rightarrow> files \<Rightarrow> exn + files" where
  "fetch_asset env weight_url font_path files =
     (case asset_reply env weight_url of
        Raises e \<Rightarrow> Inl e
      | Response status content \<Rightarrow>
          (case raise_for_status status of
             Some e \<Rightarrow> Inl e
           | None \<Rightarrow>
               (case write_bytes env font_path of
                  Some e \<Rightarrow> Inl e
                | None \<Rightarrow> Inr (files(font_path \<mapsto> File content)))))"

definition cache_path :: "string \<Rightarrow> string \<Rightarrow> string \<Rightarrow> string" where
  "cache_path font_name_safe weight_key weight_url =
     (let file_ext = (if endswith weight_url ''.woff2'' then ''woff2'' else ''ttf'');
          font_filename = font_name_safe @ ''_'' @ weight_key @ ''.'' @ file_ext
      in joinpath FONTS_CACHE_DIR font_filename)"

text \<open>Lines 77 to 114: the body of the loop over the requested weights.\<close>

definition weight_step ::
  "env \<Rightarrow> string \<Rightarrow> string \<Rightarrow> (int, string) dict \<Rightarrow> fontset \<times> files \<Rightarrow> int
     \<Rightarrow> (fontset \<times> files) \<times> event list" where
  "weight_step env font_family font_name_safe weight_url_map st weight =
     (case st of (font_files, files) \<Rightarrow>
       (let weight_key = weight_key_of weight
        in case find_weight_url weight_url_map weight_key weight of
             (weight_url, t1) \<Rightarrow>
               (case weight_url of
                  None \<Rightarrow> ((font_files, files), t1)
                | Some url \<Rightarrow>
                    if url = [] then ((font_files, files), t1)
                    else
                      (let font_path = cache_path font_name_safe weight_key url
                       in if files font_path = None then
                            (case fetch_asset env url font_path files of
                               Inl e \<Rightarrow>
                                 ((font_files, files),
                                  t1 @ [Print (Downloading font_family weight_key weight),
                                        Get_asset url,
                                        Print (Failed_download weight_key e)])
                             | Inr files' \<Rightarrow>
                                 ((dict_set font_files weight_key font_path, files'),
                                  t1 @ [Print (Downloading font_family weight_key weight),
                                        Get_asset url]))
                          else
                            ((dict_set font_files weight_key font_path, files),
                             t1 @ [Print (Using_cached font_family weight_key)])))))"

fun weights_loop ::
  "env \<Rightarrow> string \<Rightarrow> string \<Rightarrow> (int, string) dict \<Rightarrow> fontset \<times> files \<Rightarrow> int list
     \<Rightarrow> (fontset \<times> files) \<times> event list" where
  "weights_loop env font_family font_name_safe weight_url_map st [] = (st, [])"
| "weights_loop env font_family font_name_safe weight_url_map st (weight # weights) =
     (case weight_step env font_family font_name_safe weight_url_map st weight of
        (st', t) \<Rightarrow>
          (case weights_loop env font_family font_name_safe weight_url_map st' weights of
             (st'', t') \<Rightarrow> (st'', t @ t')))"

text \<open>
  Lines 116 to 128. The first value and the first key are taken from a dictionary that is
  not empty there: the guard has checked it, and an assignment never empties one.
\<close>

definition ensure_regular :: "fontset \<Rightarrow> fontset \<times> event list" where
  "ensure_regular font_files =
     (if \<not> dict_has font_files ''regular'' \<and> font_files \<noteq> [] then
        (let font_files' = dict_set font_files ''regular'' (hd (dict_values font_files))
         in (font_files', [Print (Used_as_regular (hd (dict_keys font_files')))]))
      else (font_files, []))"

definition duplicate_regular :: "string \<Rightarrow> msg \<Rightarrow> fontset \<Rightarrow> fontset \<times> event list" where
  "duplicate_regular key line font_files =
     (case dict_get font_files ''regular'' of
        Some regular \<Rightarrow>
          if \<not> dict_has font_files key then (dict_set font_files key regular, [Print line])
          else (font_files, [])
      | None \<Rightarrow> (font_files, []))"

definition fill_weights :: "fontset \<Rightarrow> fontset \<times> event list" where
  "fill_weights font_files =
     (case ensure_regular font_files of
        (f1, t1) \<Rightarrow>
          (case duplicate_regular ''bold'' Regular_as_bold f1 of
             (f2, t2) \<Rightarrow>
               (case duplicate_regular ''light'' Regular_as_light f2 of
                  (f3, t3) \<Rightarrow> (f3, t1 @ t2 @ t3))))"

text \<open>
  The body of the outer \<open>try\<close> from the request on, lines 49 to 130: an exception of the
  request or of the status check leaves it at once.
\<close>

definition try_body ::
  "env \<Rightarrow> string \<Rightarrow> int list \<Rightarrow> files \<Rightarrow> (exn + fontset option) \<times> files \<times> event list" where
  "try_body env font_family weights files =
     (let font_name_safe = lower (replace_char CHR '' '' CHR ''_'' font_family)
      in case css_reply env font_family weights of
           Raises e \<Rightarrow> (Inl e, files, [Get_css font_family weights])
         | Response status css_content \<Rightarrow>
             (case raise_for_status status of
                Some e \<Rightarrow> (Inl e, files, [Get_css font_family weights])
              | None \<Rightarrow>
                  (let weight_url_map = parse_css css_content
                   in case weights_loop env font_family font_name_safe weight_url_map
                             ([], files) weights of
                        ((font_files, files'), t) \<Rightarrow>
                          (case fill_weights font_files of
                             (font_files', t') \<Rightarrow>
                               (Inr (if font_files' \<noteq> [] then Some font_files' else None),
                                files', Get_css font_family weights # t @ t')))))"

text \<open>
  The function: the default weights, the creation of the cache directory (outside the
  \<open>try\<close>, so its exception reaches the caller), and the handler of line 132, which turns
  every exception of the body into a diagnostic and the result \<open>None\<close>.
\<close>

definition requested_weights :: "int list option \<Rightarrow> int list" where
  "requested_weights weights_arg =
     (case weights_arg of None \<Rightarrow> [300, 400, 700] | Some ws \<Rightarrow> ws)"

definition download_google_font ::
  "env \<Rightarrow> string \<Rightarrow> int list option \<Rightarrow> files
     \<Rightarrow> fontset option outcome \<times> files \<times> event list" where
  "download_google_font env font_family weights_arg files =
     (let weights = requested_weights weights_arg
      in case mkdir_cache env of
           Some e \<Rightarrow> (Raised e, files, [])
         | None \<Rightarrow>
             (case try_body env font_family weights files of
                (Inl e, files', t) \<Rightarrow>
                  (Returned None, files', t @ [Print (Error_downloading font_family e)])
              | (Inr fonts, files', t) \<Rightarrow> (Returned fonts, files', t)))"

section \<open>load_fonts_from_path\<close>

text \<open>
  A resolved path is absolute: the list of its components below the root. Its string has
  the components joined by the separator after the root, and its name is the last
  component.
\<close>

type_synonym path = "string list"

fun join_components :: "string list \<Rightarrow> string" where
  "join_components [] = []"
| "join_components [c] = c"
| "join_components (c # d # cs) = c @ ''/'' @ join_components (d # cs)"

definition str_path :: "path \<Rightarrow> string" where
  "str_path p = CHR ''/'' # join_components p"

definition path_name :: "path \<Rightarrow> string" where
  "path_name p = (if p = [] then [] else last p)"

text \<open>
  \<open>name.rfind('.')\<close>, with \<open>None\<close> for \<open>-1\<close>, and the properties \<open>suffix\<close> and \<open>stem\<close>
  of \<open>pathlib\<close> up to Python 3.13: the name is cut at its last dot unless that dot is the
  first or the last character.
\<close>

definition rfind_dot :: "string \<Rightarrow> nat option" where
  "rfind_dot name =
     (let r = dropWhile (\<lambda>c. c \<noteq> CHR ''.'') (rev name)
      in if r = [] then None else Some (length r - 1))"

definition suffix_of :: "path \<Rightarrow> string" where
  "suffix_of p =
     (let name = path_name p
      in case rfind_dot name of
           None \<Rightarrow> []
         | Some i \<Rightarrow> if 0 < i \<and> i < length name - 1 then drop i name else [])"

definition stem_of :: "path \<Rightarrow> string" where
  "stem_of p =
     (let name = path_name p
      in case rfind_dot name of
           None \<Rightarrow> name
         | Some i \<Rightarrow> if 0 < i \<and> i < length name - 1 then take i name else name)"

text \<open>\<open>Path(s).name\<close> for a path given as a string: what follows the last separator.\<close>

definition basename :: "string \<Rightarrow> string" where
  "basename s = rev (takeWhile (\<lambda>c. c \<noteq> CHR ''/'') (rev s))"

definition path_exists :: "files \<Rightarrow> path \<Rightarrow> bool" where
  "path_exists files p = (files (str_path p) \<noteq> None)"

definition is_file :: "files \<Rightarrow> path \<Rightarrow> bool" where
  "is_file files p = (case files (str_path p) of Some (File _) \<Rightarrow> True | _ \<Rightarrow> False)"

definition is_dir :: "files \<Rightarrow> path \<Rightarrow> bool" where
  "is_dir files p = (case files (str_path p) of Some (Dir _) \<Rightarrow> True | _ \<Rightarrow> False)"

definition iterdir :: "files \<Rightarrow> path \<Rightarrow> path list" where
  "iterdir files p =
     (case files (str_path p) of Some (Dir names) \<Rightarrow> map (\<lambda>n. p @ [n]) names | _ \<Rightarrow> [])"

definition SUPPORTED_EXTS :: "string list" where
  "SUPPORTED_EXTS = [''.ttf'', ''.otf'', ''.woff'', ''.woff2'']"

definition supported :: "path \<Rightarrow> bool" where
  "supported p = (lower (suffix_of p) \<in> set SUPPORTED_EXTS)"

definition font_candidates :: "files \<Rightarrow> path \<Rightarrow> path list" where
  "font_candidates files font_path =
     filter (\<lambda>f. is_file files f \<and> supported f) (iterdir files font_path)"

text \<open>
  The patterns of \<open>weight_patterns\<close> are plain words, searched anywhere in the stem, and
  words behind \<open>^\<close>, searched at its start only.
\<close>

datatype pattern = Anywhere string | At_start string

fun contains :: "string \<Rightarrow> string \<Rightarrow> bool" where
  "contains [] p = (p = [])"
| "contains (c # cs) p = (startswith (c # cs) p \<or> contains cs p)"

fun re_search :: "pattern \<Rightarrow> string \<Rightarrow> bool" where
  "re_search (Anywhere p) s = contains s p"
| "re_search (At_start p) s = startswith s p"

definition weight_patterns :: "(string, pattern list) dict" where
  "weight_patterns =
     [(''bold'', [Anywhere ''bold'', Anywhere ''700'', At_start ''b_'']),
      (''regular'', [Anywhere ''regular'', Anywhere ''400'', Anywhere ''normal'', At_start ''r_'']),
      (''light'', [Anywhere ''light'', Anywhere ''300'', Anywhere ''thin'', At_start ''l_''])]"

definition matches :: "pattern list \<Rightarrow> path \<Rightarrow> bool" where
  "matches patterns candidate =
     (let candidate_name = lower (stem_of candidate)
      in list_ex (\<lambda>pattern. re_search pattern candidate_name) patterns)"

text \<open>
  Lines 225 to 230: for each weight name in the order of \<open>weight_patterns\<close>, the first
  candidate that matches is assigned and the scan of the candidates stops.
\<close>

fun match_weights ::
  "(string, pattern list) dict \<Rightarrow> path list \<Rightarrow> fontset \<Rightarrow> fontset" where
  "match_weights [] candidates font_files = font_files"
| "match_weights ((weight_name, patterns) # rest) candidates font_files =
     match_weights rest candidates
       (case find (matches patterns) candidates of
          Some candidate \<Rightarrow> dict_set font_files weight_name (str_path candidate)
        | None \<Rightarrow> font_files)"

text \<open>The patterns \<open>weight_patterns\<close> lists for a weight name.\<close>

definition patterns_of :: "string \<Rightarrow> pattern list" where
  "patterns_of weight_name =
     (case dict_get weight_patterns weight_name of Some patterns \<Rightarrow> patterns | None \<Rightarrow> [])"

definition set_if_missing :: "string \<Rightarrow> string \<Rightarrow> fontset \<Rightarrow> fontset" where
  "set_if_missing key font font_files =
     (if \<not> dict_has font_files key then dict_set font_files key font else font_files)"

text \<open>Lines 232 to 248, reached with at least one candidate.\<close>

definition fallback :: "path \<Rightarrow> fontset \<Rightarrow> fontset" where
  "fallback first_candidate font_files =
     (let first_font = str_path first_candidate
      in if font_files \<noteq> [] then
           set_if_missing ''light'' first_font
             (set_if_missing ''bold'' first_font
                (set_if_missing ''regular'' first_font font_files))
         else [(''bold'', first_font), (''regular'', first_font), (''light'', first_font)])"

definition load_fonts_from_path ::
  "env \<Rightarrow> files \<Rightarrow> string \<Rightarrow> fontset option \<times> event list" where
  "load_fonts_from_path env files font_path_arg =
     (let font_path = resolve env font_path_arg
      in if \<not> path_exists files font_path then
           (None, [Print (Path_missing (str_path font_path))])
         else if is_file files font_path then
           (if \<not> supported font_path then
              (None, [Print (Unsupported_format (suffix_of font_path))])
            else
              (Some [(''bold'', str_path font_path), (''regular'', str_path font_path),
                     (''light'', str_path font_path)],
               [Print (Loaded_font (str_path font_path))]))
         else if is_dir files font_path then
           (case font_candidates files font_path of
              [] \<Rightarrow> (None, [Print (No_font_files (str_path font_path))])
            | first_candidate # others \<Rightarrow>
                (let font_files =
                       fallback first_candidate
                         (match_weights weight_patterns (first_candidate # others) [])
                 in if font_files \<noteq> [] then
                      (Some font_files,
                       Print (Loaded_directory (str_path font_path)) #
                       map (\<lambda>(weight, path). Print (Weight_file weight (basename path)))
                         font_files)
                    else (None, [Print (No_suitable_fonts (str_path font_path))])))
         else (None, [Print (Invalid_path (str_path font_path))]))"

section \<open>load_fonts\<close>

text \<open>
  Priority 1, lines 284 to 290. The result \<open>Returned None\<close> of a stage says that the stage
  has produced no fonts and the next one is tried.
\<close>

definition priority_1 ::
  "env \<Rightarrow> string option \<Rightarrow> files \<Rightarrow> fontset option outcome \<times> files \<times> event list" where
  "priority_1 env font_family files =
     (case font_family of
        None \<Rightarrow> (Returned None, files, [])
      | Some family \<Rightarrow>
          if family \<noteq> [] \<and> lower family \<noteq> ''roboto'' then
            (case download_google_font env family None files of
               (Raised e, files', t) \<Rightarrow>
                 (Raised e, files', Print (Loading_google_font family) # t)
             | (Returned fonts, files', t) \<Rightarrow>
                 if fonts \<noteq> None \<and> fonts \<noteq> Some [] then
                   (Returned fonts, files',
                    Print (Loading_google_font family) # t @ [Print (Font_loaded family)])
                 else
                   (Returned None, files',
                    Print (Loading_google_font family) # t @ [Print (Failed_family family)]))
          else (Returned None, files, []))"

text \<open>Priority 2, lines 293 to 297.\<close>

definition priority_2 ::
  "env \<Rightarrow> string option \<Rightarrow> files \<Rightarrow> fontset option \<times> event list" where
  "priority_2 env font_path files =
     (case font_path of
        None \<Rightarrow> (None, [])
      | Some p \<Rightarrow>
          if p \<noteq> [] then
            (case load_fonts_from_path env files p of
               (fonts, t) \<Rightarrow>
                 if fonts \<noteq> None \<and> fonts \<noteq> Some [] then (fonts, t)
                 else (None, t @ [Print Failed_font_path]))
          else (None, []))"

text \<open>Priority 3, lines 300 to 312: the bundled fonts, each checked in turn.\<close>

definition roboto_fonts :: fontset where
  "roboto_fonts =
     [(''bold'', joinpath FONTS_DIR ''Roboto-Bold.ttf''),
      (''regular'', joinpath FONTS_DIR ''Roboto-Regular.ttf''),
      (''light'', joinpath FONTS_DIR ''Roboto-Light.ttf'')]"

fun first_missing :: "files \<Rightarrow> fontset \<Rightarrow> string option" where
  "first_missing files [] = None"
| "first_missing files ((weight, path) # rest) =
     (if files path = None then Some path else first_missing files rest)"

definition priority_3 :: "files \<Rightarrow> fontset option \<times> event list" where
  "priority_3 files =
     (case first_missing files roboto_fonts of
        Some path \<Rightarrow> (None, [Print (Font_not_found path)])
      | None \<Rightarrow> (Some roboto_fonts, []))"

definition load_fonts ::
  "env \<Rightarrow> string option \<Rightarrow> string option \<Rightarrow> files
     \<Rightarrow> fontset option outcome \<times> files \<times> event list" where
  "load_fonts env font_family font_path files =
     (case priority_1 env font_family files of
        (Raised e, files', t1) \<Rightarrow> (Raised e, files', t1)
      | (Returned (Some fonts), files', t1) \<Rightarrow> (Returned (Some fonts), files', t1)
      | (Returned None, files', t1) \<Rightarrow>
          (case priority_2 env font_path files' of
             (Some fonts, t2) \<Rightarrow> (Returned (Some fonts), files', t1 @ t2)
           | (None, t2) \<Rightarrow>
               (case priority_3 files' of
                  (fonts, t3) \<Rightarrow> (Returned fonts, files', t1 @ t2 @ t3))))"

text \<open>
  The events of an asset download, and the line that reports a failed one.
\<close>

fun downloads :: "event \<Rightarrow> bool" where
  "downloads (Get_asset _) = True"
| "downloads (Print (Downloading _ _ _)) = True"
| "downloads _ = False"

fun download_failed :: "event \<Rightarrow> bool" where
  "download_failed (Print (Failed_download _ _)) = True"
| "download_failed _ = False"

text \<open>
  The cache paths a trace downloads to. A download shows as the line of line 103 followed
  by the request of line 105, and the path of line 100 is made of what the two carry: the
  family, the weight key and the URL. The requests for assets are counted apart.
\<close>

fun downloaded_paths :: "event list \<Rightarrow> string list" where
  "downloaded_paths (Print (Downloading font_family weight_key weight) # Get_asset url # rest) =
     cache_path (lower (replace_char CHR '' '' CHR ''_'' font_family)) weight_key url #
     downloaded_paths rest"
| "downloaded_paths (ev # rest) = downloaded_paths rest"
| "downloaded_paths [] = []"

fun asset_request :: "event \<Rightarrow> bool" where
  "asset_request (Get_asset _) = True"
| "asset_request _ = False"

section \<open>Font sets\<close>

text \<open>
  The font set a caller can use: each of the three keys is bound to a path that is not the
  empty string.
\<close>

definition fontset_complete :: "fontset \<Rightarrow> bool" where
  "fontset_complete fonts =
     (truthy (dict_get fonts ''light'') \<and> truthy (dict_get fonts ''regular'') \<and>
      truthy (dict_get fonts ''bold''))"

definition nonempty_values :: "fontset \<Rightarrow> bool" where
  "nonempty_values d = (\<forall>v \<in> set (dict_values d). v \<noteq> [])"

section \<open>A sample world\<close>

text \<open>
  A style sheet with one block, a network that answers every request, and a file system
  with a directory of two fonts and the three bundled fonts. The theorems below are
  instantiated on it. The name \<open>Bold_400.TTF\<close> matches patterns of two weights and has its
  extension in capitals.
\<close>

definition sample_css :: string where
  "sample_css = ''@font-face { font-weight: 400; src: url(https://f.example/r.woff2); }''"

definition sample_env :: env where
  "sample_env =
     \<lparr>css_reply = (\<lambda>family weights. Response 200 sample_css),
      asset_reply = (\<lambda>url. Response 200 ''wOF2''),
      mkdir_cache = None,
      write_bytes = (\<lambda>path. None),
      resolve = (\<lambda>p. if p = ''~/d'' then [''d'']
                     else if p = ''~/d/Bold_400.TTF'' then [''d'', ''Bold_400.TTF'']
                     else [p])\<rparr>"

definition sample_files :: files where
  "sample_files =
     [''/d'' \<mapsto> Dir [''thin.ttf'', ''Bold_400.TTF''],
      ''/d/thin.ttf'' \<mapsto> File ''t'',
      ''/d/Bold_400.TTF'' \<mapsto> File ''b'',
      ''fonts/Roboto-Bold.ttf'' \<mapsto> File ''B'',
      ''fonts/Roboto-Regular.ttf'' \<mapsto> File ''R'',
      ''fonts/Roboto-Light.ttf'' \<mapsto> File ''L'']"

section \<open>Dictionaries and scans\<close>

lemma dict_get_dict_set:
  "dict_get (dict_set d k v) k' = (if k' = k then Some v else dict_get d k')"
  by (induction d) (auto simp: dict_get_def)

lemma nonempty_values_Nil: "nonempty_values []"
  by (simp add: nonempty_values_def dict_values_def)

lemma set_dict_set: "set (dict_set d k v) \<subseteq> insert (k, v) (set d)"
  by (induction d) (auto split: if_splits)

lemma nonempty_values_dict_set:
  "nonempty_values d \<Longrightarrow> v \<noteq> [] \<Longrightarrow> nonempty_values (dict_set d k v)"
  using set_dict_set [of d k v] by (fastforce simp: nonempty_values_def dict_values_def)

lemma nonempty_values_get:
  "nonempty_values d \<Longrightarrow> dict_get d k = Some v \<Longrightarrow> v \<noteq> []"
  by (auto simp: nonempty_values_def dict_values_def dict_get_def dest!: map_of_SomeD)

lemma truthy_get:
  "nonempty_values d \<Longrightarrow> truthy (dict_get d k) = dict_has d k"
  by (cases "dict_get d k") (auto simp: dict_has_def dest: nonempty_values_get)

lemma dict_has_dict_set: "dict_has (dict_set d k v) k' = (k' = k \<or> dict_has d k')"
  by (simp add: dict_has_def dict_get_dict_set)

lemma dict_set_not_Nil: "dict_set d k v \<noteq> []"
  by (cases d) (auto split: if_splits)

lemma min_scan_first:
  "\<exists>pre post. b # xs = pre @ min_scan f b xs # post \<and>
     (\<forall>y \<in> set pre. f (min_scan f b xs) < f y) \<and>
     (\<forall>y \<in> set post. f (min_scan f b xs) \<le> f y)"
proof (induction xs arbitrary: b)
  case Nil
  show ?case by (auto intro: exI [of _ "[]"])
next
  case (Cons x xs)
  define b' where "b' = (if f x < f b then x else b)"
  define m where "m = min_scan f b' xs"
  from Cons.IH [of b'] obtain pre post where
    d: "b' # xs = pre @ m # post" and
    lt: "\<forall>y \<in> set pre. f m < f y" and le: "\<forall>y \<in> set post. f m \<le> f y"
    unfolding m_def by blast
  have m: "min_scan f b (x # xs) = m"
    by (simp add: m_def b'_def)
  have mb': "f m \<le> f b'"
  proof (cases pre)
    case Nil
    with d show ?thesis by simp
  next
    case (Cons p ps)
    with d have "b' \<in> set pre" by simp
    with lt show ?thesis by fastforce
  qed
  show ?case
  proof (cases "f x < f b")
    case True
    then have b': "b' = x" by (simp add: b'_def)
    from d b' have "b # x # xs = (b # pre) @ m # post" by simp
    moreover from True mb' lt b' have "\<forall>y \<in> set (b # pre). f m < f y" by auto
    ultimately show ?thesis unfolding m using le by blast
  next
    case False
    then have b': "b' = b" by (simp add: b'_def)
    show ?thesis
    proof (cases pre)
      case Nil
      with d b' have "b # x # xs = [] @ m # (x # post)" by simp
      moreover from mb' b' False le have "\<forall>y \<in> set (x # post). f m \<le> f y" by auto
      ultimately show ?thesis unfolding m
        by (metis empty_iff list.set(1))
    next
      case (Cons p ps)
      with d b' have p: "p = b" and xs: "xs = ps @ m # post" by auto
      then have "b # x # xs = (b # x # ps) @ m # post" by simp
      moreover from lt Cons p False have "\<forall>y \<in> set (b # x # ps). f m < f y" by auto
      ultimately show ?thesis unfolding m using le by blast
    qed
  qed
qed

lemma find_first:
  "\<forall>y \<in> set pre. \<not> P y \<Longrightarrow> P m \<Longrightarrow> find P (pre @ m # post) = Some m"
  by (induction pre) auto

lemma min_by_spec:
  assumes "xs \<noteq> []"
  shows "\<exists>m. min_by f xs = Some m \<and> m \<in> set xs \<and> (\<forall>y \<in> set xs. f m \<le> f y) \<and>
           find (\<lambda>a. \<forall>y \<in> set xs. f a \<le> f y) xs = Some m"
proof -
  from assms obtain b bs where xs: "xs = b # bs" by (cases xs) auto
  let ?m = "min_scan f b bs"
  from min_scan_first [of b bs f] obtain pre post where
    d: "b # bs = pre @ ?m # post" and
    lt: "\<forall>y \<in> set pre. f ?m < f y" and le: "\<forall>y \<in> set post. f ?m \<le> f y"
    by blast
  have mem: "?m \<in> set (b # bs)" by (subst d) simp
  have minimal: "\<forall>y \<in> set (b # bs). f ?m \<le> f y"
    using lt le by (subst d) auto
  have "\<forall>y \<in> set pre. \<not> (\<forall>z \<in> set (b # bs). f y \<le> f z)"
    using lt mem by (meson not_le)
  with minimal have "find (\<lambda>a. \<forall>y \<in> set (b # bs). f a \<le> f y) (pre @ ?m # post) = Some ?m"
    by (intro find_first) auto
  with d have "find (\<lambda>a. \<forall>y \<in> set (b # bs). f a \<le> f y) (b # bs) = Some ?m" by simp
  with mem minimal show ?thesis
    unfolding xs by (simp add: min_by_def)
qed


section \<open>The closest weight\<close>

text \<open>
  C2. When the mapping from weights to URLs is not empty and has no entry for the requested
  weight, the weight chosen instead is a key of the mapping at the least absolute distance
  from the requested one, and of several such keys the first in the order of the mapping.
  Its URL is used for the weight, and the substitution is reported by one printed line
  that is not a diagnostic; nothing fails.
\<close>

theorem closest_weight_substitution:
  assumes "weight_url_map \<noteq> []"
    and "dict_get weight_url_map weight = None"
  shows "\<exists>closest_weight.
     find_weight_url weight_url_map weight_key weight =
       (dict_get weight_url_map closest_weight,
        [Print (Using_weight closest_weight weight_key weight)]) \<and>
     closest_weight \<in> set (dict_keys weight_url_map) \<and>
     (\<forall>a \<in> set (dict_keys weight_url_map). \<bar>closest_weight - weight\<bar> \<le> \<bar>a - weight\<bar>) \<and>
     find (\<lambda>a. \<forall>b \<in> set (dict_keys weight_url_map). \<bar>a - weight\<bar> \<le> \<bar>b - weight\<bar>)
       (dict_keys weight_url_map) = Some closest_weight \<and>
     dict_get weight_url_map closest_weight \<noteq> None \<and>
     \<not> is_diagnostic (Using_weight closest_weight weight_key weight)"
proof -
  from assms(1) have "dict_keys weight_url_map \<noteq> []"
    by (simp add: dict_keys_def)
  from min_by_spec [OF this, of "\<lambda>x. \<bar>x - weight\<bar>"] obtain m where
    m: "min_by (\<lambda>x. \<bar>x - weight\<bar>) (dict_keys weight_url_map) = Some m" and
    mem: "m \<in> set (dict_keys weight_url_map)" and
    least: "\<forall>y \<in> set (dict_keys weight_url_map). \<bar>m - weight\<bar> \<le> \<bar>y - weight\<bar>" and
    first: "find (\<lambda>a. \<forall>y \<in> set (dict_keys weight_url_map). \<bar>a - weight\<bar> \<le> \<bar>y - weight\<bar>)
              (dict_keys weight_url_map) = Some m"
    by blast
  have step: "find_weight_url weight_url_map weight_key weight =
      (dict_get weight_url_map m, [Print (Using_weight m weight_key weight)])"
    using assms m by (simp add: find_weight_url_def)
  from mem have bound: "dict_get weight_url_map m \<noteq> None"
    by (simp add: dict_keys_def dict_get_def map_of_eq_None_iff)
  from step mem least first bound show ?thesis
    by (intro exI [of _ m]) simp
qed

theorem closest_weight_substitution_witness:
  "[(700 :: int, ''https://f.example/b.woff2''), (300, ''https://f.example/l.woff2'')] \<noteq> [] \<and>
   dict_get [(700 :: int, ''https://f.example/b.woff2''), (300, ''https://f.example/l.woff2'')] 500 = None \<and>
   find_weight_url [(700, ''https://f.example/b.woff2''), (300, ''https://f.example/l.woff2'')]
       ''regular'' 500 =
     (Some ''https://f.example/b.woff2'', [Print (Using_weight 700 ''regular'' 500)])"
proof -
  let ?m = "[(700 :: int, ''https://f.example/b.woff2''), (300, ''https://f.example/l.woff2'')]"
  have h1: "?m \<noteq> []" by simp
  have h2: "dict_get ?m 500 = None" by (simp add: dict_get_def)
  from closest_weight_substitution [OF h1 h2, of "''regular''"] obtain c where
    step: "find_weight_url ?m ''regular'' 500 = (dict_get ?m c, [Print (Using_weight c ''regular'' 500)])"
    and first: "find (\<lambda>a. \<forall>b \<in> set (dict_keys ?m). \<bar>a - 500\<bar> \<le> \<bar>b - 500\<bar>) (dict_keys ?m) = Some c"
    by blast
  from first have "c = 700" by (simp add: dict_keys_def)
  with step have "find_weight_url ?m ''regular'' 500 =
      (Some ''https://f.example/b.woff2'', [Print (Using_weight 700 ''regular'' 500)])"
    by (simp add: dict_get_def)
  with h1 h2 show ?thesis by blast
qed

section \<open>Parsing the style sheet\<close>

lemma parse_block_get:
  "dict_get (parse_block m b) w =
     (if block_weight b = Some w \<and> url_match b \<noteq> None then url_match b else dict_get m w)"
  by (auto simp: parse_block_def block_weight_def Let_def dict_get_dict_set split: option.splits)

lemma foldl_parse_block_skip:
  "\<forall>b \<in> set bs. block_weight b = Some w \<longrightarrow> url_match b = None \<Longrightarrow>
   dict_get (foldl parse_block m bs) w = dict_get m w"
  by (induction bs arbitrary: m) (auto simp: parse_block_get)

text \<open>
  C10. When several blocks of the style sheet declare the same weight, the mapping holds
  the URL of the last of them from which a URL is extracted; the URLs of the earlier blocks
  with that weight are overwritten, and nothing is printed. Here \<open>block\<close> is such a last
  block: no block after it both declares the weight and yields a URL.
\<close>

theorem last_block_of_weight_wins:
  assumes "tl (font_face_blocks css_content) = earlier @ block # later"
    and "block_weight block = Some weight"
    and "url_match block = Some url"
    and "\<forall>b \<in> set later. block_weight b = Some weight \<longrightarrow> url_match b = None"
  shows "dict_get (parse_css css_content) weight = Some url"
proof -
  let ?m = "foldl parse_block [] earlier"
  have "parse_css css_content = foldl parse_block (parse_block ?m block) later"
    using assms(1) by (simp add: parse_css_def)
  then have "dict_get (parse_css css_content) weight = dict_get (parse_block ?m block) weight"
    using assms(4) by (simp add: foldl_parse_block_skip)
  then show ?thesis
    using assms(2,3) by (simp add: parse_block_get)
qed

theorem last_block_of_weight_wins_witness:
  "tl (font_face_blocks ''@font-face { font-weight: 400; src: url(https://f.example/a.woff2); } @font-face { font-weight: 400; src: url(https://f.example/b.woff2); }'')
     = ['' font-weight: 400; src: url(https://f.example/a.woff2); } ''] @
       '' font-weight: 400; src: url(https://f.example/b.woff2); }'' # [] \<and>
   block_weight '' font-weight: 400; src: url(https://f.example/b.woff2); }'' = Some 400 \<and>
   url_match '' font-weight: 400; src: url(https://f.example/b.woff2); }'' = Some ''https://f.example/b.woff2'' \<and>
   dict_get (parse_css ''@font-face { font-weight: 400; src: url(https://f.example/a.woff2); } @font-face { font-weight: 400; src: url(https://f.example/b.woff2); }'') 400
     = Some ''https://f.example/b.woff2''"
proof -
  let ?css = "''@font-face { font-weight: 400; src: url(https://f.example/a.woff2); } @font-face { font-weight: 400; src: url(https://f.example/b.woff2); }''"
  let ?b = "'' font-weight: 400; src: url(https://f.example/b.woff2); }''"
  have h1: "tl (font_face_blocks ?css) = ['' font-weight: 400; src: url(https://f.example/a.woff2); } ''] @ ?b # []"
    by (simp add: font_face_blocks_def match_font_face_def isspace_def)
  have h2: "block_weight ?b = Some 400"
    by (simp add: block_weight_def weight_match_here_def isspace_def isdigit_def
        int_of_digits_def digit_value_def)
  have h3: "url_match ?b = Some ''https://f.example/b.woff2''"
    by (simp add: url_match_here_def endswith_def)
  have h4: "\<forall>b \<in> set []. block_weight b = Some 400 \<longrightarrow> url_match b = None"
    by simp
  note c = last_block_of_weight_wins [OF h1 h2 h3 h4]
  from h1 h2 h3 c show ?thesis by blast
qed

section \<open>Extraction of the asset URL\<close>

text \<open>
  C3. A block that holds both a compressed-format (woff2) URL and a legacy-format (ttf) URL
  should yield the woff2 URL, as the comment on the URL search says (prefer woff2, fall back
  to ttf). The search returns the leftmost match instead: in the block below the ttf URL
  stands first, and the mapping binds weight 400 to it although the woff2 URL is present.
\<close>

theorem parse_css_takes_leftmost_url:
  "parse_css ''@font-face { font-weight: 400; src: url(https://f.example/r.ttf), url(https://f.example/r.woff2); }''
     = [(400, ''https://f.example/r.ttf'')]"
  by (simp add: parse_css_def font_face_blocks_def parse_block_def match_font_face_def
      weight_match_here_def url_match_here_def endswith_def isspace_def isdigit_def
      int_of_digits_def digit_value_def Let_def)

section \<open>The sample world, evaluated\<close>

lemma sample_parse: "parse_css sample_css = [(400, ''https://f.example/r.woff2'')]"
  by (simp add: sample_css_def parse_css_def font_face_blocks_def parse_block_def match_font_face_def
      weight_match_here_def url_match_here_def endswith_def isspace_def isdigit_def
      int_of_digits_def digit_value_def Let_def)

lemma sample_download:
  "fst (download_google_font sample_env ''Lato'' (Some [400]) sample_files) =
     Returned (Some [(''regular'', ''fonts/cache/lato_regular.woff2''),
                     (''bold'', ''fonts/cache/lato_regular.woff2''),
                     (''light'', ''fonts/cache/lato_regular.woff2'')])"
  by (simp add: download_google_font_def requested_weights_def try_body_def sample_env_def
      sample_parse raise_for_status_def weight_step_def weight_key_of_def weight_map_def
      find_weight_url_def dict_get_def cache_path_def joinpath_def FONTS_CACHE_DIR_def
      FONTS_DIR_def endswith_def lower_def replace_char_def isupper_def sample_files_def
      fetch_asset_def fill_weights_def ensure_regular_def duplicate_regular_def dict_has_def
      dict_values_def dict_keys_def Let_def)

lemma sample_local:
  "load_fonts_from_path sample_env sample_files ''~/d'' =
     (Some [(''bold'', ''/d/Bold_400.TTF''), (''regular'', ''/d/Bold_400.TTF''),
            (''light'', ''/d/thin.ttf'')],
      [Print (Loaded_directory ''/d''), Print (Weight_file ''bold'' ''Bold_400.TTF''),
       Print (Weight_file ''regular'' ''Bold_400.TTF''),
       Print (Weight_file ''light'' ''thin.ttf'')])"
  by (simp add: load_fonts_from_path_def sample_env_def sample_files_def path_exists_def
      str_path_def is_file_def is_dir_def font_candidates_def iterdir_def supported_def
      suffix_of_def stem_of_def path_name_def rfind_dot_def SUPPORTED_EXTS_def lower_def
      isupper_def weight_patterns_def matches_def fallback_def set_if_missing_def
      dict_has_def dict_get_def basename_def Let_def)

lemma sample_default:
  "load_fonts sample_env None None sample_files =
     (Returned (Some roboto_fonts), sample_files, [])"
  by (simp add: load_fonts_def priority_1_def priority_2_def priority_3_def roboto_fonts_def
      joinpath_def endswith_def FONTS_DIR_def sample_files_def)

lemma sample_download_default:
  "download_google_font sample_env ''Lato'' None sample_files =
     (Returned (Some [(''light'', ''fonts/cache/lato_light.woff2''),
                      (''regular'', ''fonts/cache/lato_regular.woff2''),
                      (''bold'', ''fonts/cache/lato_bold.woff2'')]),
      sample_files(''fonts/cache/lato_light.woff2'' \<mapsto> File ''wOF2'',
                   ''fonts/cache/lato_regular.woff2'' \<mapsto> File ''wOF2'',
                   ''fonts/cache/lato_bold.woff2'' \<mapsto> File ''wOF2''),
      [Get_css ''Lato'' [300, 400, 700],
       Print (Using_weight 400 ''light'' 300),
       Print (Downloading ''Lato'' ''light'' 300),
       Get_asset ''https://f.example/r.woff2'',
       Print (Downloading ''Lato'' ''regular'' 400),
       Get_asset ''https://f.example/r.woff2'',
       Print (Using_weight 400 ''bold'' 700),
       Print (Downloading ''Lato'' ''bold'' 700),
       Get_asset ''https://f.example/r.woff2''])"
  by (simp add: download_google_font_def requested_weights_def try_body_def sample_env_def
      sample_parse raise_for_status_def weight_step_def weight_key_of_def weight_map_def
      find_weight_url_def dict_get_def cache_path_def joinpath_def FONTS_CACHE_DIR_def
      FONTS_DIR_def endswith_def lower_def replace_char_def isupper_def sample_files_def
      fetch_asset_def fill_weights_def ensure_regular_def duplicate_regular_def dict_has_def
      dict_values_def dict_keys_def min_by_def Let_def)

lemma parse_css_Nil: "parse_css [] = []"
  by (simp add: parse_css_def font_face_blocks_def)


section \<open>Complete font sets\<close>

lemma joinpath_not_Nil: "b \<noteq> [] \<Longrightarrow> joinpath a b \<noteq> []"
  by (simp add: joinpath_def)

lemma cache_path_not_Nil: "cache_path font_name_safe weight_key weight_url \<noteq> []"
  by (simp add: cache_path_def Let_def joinpath_not_Nil)

lemma weight_step_nonempty_values:
  assumes "weight_step env font_family font_name_safe weight_url_map (font_files, files) weight
             = ((font_files', files'), t)"
    and "nonempty_values font_files"
  shows "nonempty_values font_files'"
  using assms
  by (auto simp: weight_step_def Let_def nonempty_values_dict_set cache_path_not_Nil
      split: prod.splits option.splits if_splits sum.splits)

lemma weights_loop_nonempty_values:
  "weights_loop env font_family font_name_safe weight_url_map (font_files, files) weights
     = ((font_files', files'), t) \<Longrightarrow>
   nonempty_values font_files \<Longrightarrow> nonempty_values font_files'"
proof (induction weights arbitrary: font_files files t)
  case Nil
  then show ?case by simp
next
  case (Cons weight weights)
  obtain f1 fs1 t1 where
    s: "weight_step env font_family font_name_safe weight_url_map (font_files, files) weight
          = ((f1, fs1), t1)"
    by (metis surj_pair)
  obtain t2 where
    l: "weights_loop env font_family font_name_safe weight_url_map (f1, fs1) weights
          = ((font_files', files'), t2)"
    using Cons.prems(1) s by (auto split: prod.splits)
  from weight_step_nonempty_values [OF s Cons.prems(2)] have "nonempty_values f1" .
  with Cons.IH [OF l] show ?case .
qed

lemma ensure_regular_has:
  assumes "ensure_regular font_files = (f1, t1)" and "font_files \<noteq> []"
    and "nonempty_values font_files"
  shows "nonempty_values f1 \<and> dict_has f1 ''regular''"
proof -
  from assms(2,3) have "hd (dict_values font_files) \<noteq> []"
    by (cases font_files) (auto simp: nonempty_values_def dict_values_def)
  with assms show ?thesis
    by (auto simp: ensure_regular_def Let_def nonempty_values_dict_set dict_has_dict_set
        split: if_splits)
qed

lemma ensure_regular_Nil: "ensure_regular [] = ([], [])"
  by (simp add: ensure_regular_def)

lemma duplicate_regular_has:
  assumes "duplicate_regular key line f = (f', t)" and "dict_has f ''regular''"
    and "nonempty_values f"
  shows "nonempty_values f' \<and> dict_has f' key \<and> (\<forall>k. dict_has f k \<longrightarrow> dict_has f' k)"
proof -
  from assms(2) obtain regular where r: "dict_get f ''regular'' = Some regular"
    by (auto simp: dict_has_def)
  with assms(3) have "regular \<noteq> []" by (rule nonempty_values_get)
  with assms r show ?thesis
    by (auto simp: duplicate_regular_def nonempty_values_dict_set dict_has_dict_set
        split: if_splits)
qed

lemma duplicate_regular_Nil: "duplicate_regular key line [] = ([], [])"
  by (simp add: duplicate_regular_def dict_get_def)

lemma fill_weights_complete:
  assumes "fill_weights font_files = (font_files', t)" and "nonempty_values font_files"
    and "font_files' \<noteq> []"
  shows "fontset_complete font_files'"
proof (cases "font_files = []")
  case True
  with assms(1) have "font_files' = []"
    by (simp add: fill_weights_def ensure_regular_Nil duplicate_regular_Nil)
  with assms(3) show ?thesis by simp
next
  case False
  obtain f1 t1 where e: "ensure_regular font_files = (f1, t1)" by (metis surj_pair)
  obtain f2 t2 where b: "duplicate_regular ''bold'' Regular_as_bold f1 = (f2, t2)"
    by (metis surj_pair)
  obtain f3 t3 where l: "duplicate_regular ''light'' Regular_as_light f2 = (f3, t3)"
    by (metis surj_pair)
  from assms(1) e b l have f3: "font_files' = f3" by (simp add: fill_weights_def)
  from ensure_regular_has [OF e False assms(2)]
  have 1: "nonempty_values f1" "dict_has f1 ''regular''" by simp_all
  from duplicate_regular_has [OF b 1(2) 1(1)]
  have 2: "nonempty_values f2" "dict_has f2 ''bold''" "dict_has f2 ''regular''"
    using 1(2) by simp_all
  from duplicate_regular_has [OF l 2(3) 2(1)]
  have 3: "nonempty_values f3" "dict_has f3 ''light''" "dict_has f3 ''regular''"
    "dict_has f3 ''bold''"
    using 2(2,3) by simp_all
  then show ?thesis
    unfolding f3 by (simp add: fontset_complete_def truthy_get)
qed

lemma download_google_font_complete:
  assumes "download_google_font env font_family weights_arg files
             = (Returned (Some fonts), files', t)"
  shows "fontset_complete fonts"
proof -
  define weights where "weights = requested_weights weights_arg"
  from assms obtain t0 where
    body: "try_body env font_family weights files = (Inr (Some fonts), files', t0)"
    by (auto simp: download_google_font_def weights_def split: option.splits prod.splits sum.splits)
  then obtain status css_content where
    "css_reply env font_family weights = Response status css_content"
    "raise_for_status status = None"
    by (auto simp: try_body_def Let_def split: http_result.splits option.splits)
  with body obtain font_files fs tl tf where
    loop: "weights_loop env font_family (lower (replace_char CHR '' '' CHR ''_'' font_family))
        (parse_css css_content) ([], files) weights = ((font_files, fs), tl)"
    and fill: "fill_weights font_files = (fonts, tf)" and ne: "fonts \<noteq> []"
    by (auto simp: try_body_def Let_def split: prod.splits if_splits)
  from weights_loop_nonempty_values [OF loop nonempty_values_Nil]
  have "nonempty_values font_files" .
  from fill_weights_complete [OF fill this ne] show ?thesis .
qed

lemma str_path_not_Nil: "str_path p \<noteq> []"
  by (simp add: str_path_def)

lemma match_weights_nonempty_values:
  "nonempty_values font_files \<Longrightarrow> nonempty_values (match_weights ps candidates font_files)"
  by (induction ps candidates font_files rule: match_weights.induct)
    (auto simp: nonempty_values_dict_set str_path_not_Nil split: option.splits)

lemma set_if_missing_has:
  assumes "nonempty_values f" and "v \<noteq> []"
  shows "nonempty_values (set_if_missing k v f) \<and> dict_has (set_if_missing k v f) k \<and>
         (\<forall>k'. dict_has f k' \<longrightarrow> dict_has (set_if_missing k v f) k')"
  using assms by (simp add: set_if_missing_def nonempty_values_dict_set dict_has_dict_set)

lemma fallback_complete:
  assumes "nonempty_values font_files"
  shows "fontset_complete (fallback first_candidate font_files)"
proof (cases "font_files = []")
  case True
  then show ?thesis
    by (simp add: fallback_def Let_def fontset_complete_def dict_get_def str_path_not_Nil)
next
  case False
  let ?v = "str_path first_candidate"
  let ?f1 = "set_if_missing ''regular'' ?v font_files"
  let ?f2 = "set_if_missing ''bold'' ?v ?f1"
  let ?f3 = "set_if_missing ''light'' ?v ?f2"
  have v: "?v \<noteq> []" by (rule str_path_not_Nil)
  from set_if_missing_has [OF assms v, of "''regular''"]
  have 1: "nonempty_values ?f1" "dict_has ?f1 ''regular''" by simp_all
  from set_if_missing_has [OF 1(1) v, of "''bold''"] 1(2)
  have 2: "nonempty_values ?f2" "dict_has ?f2 ''bold''" "dict_has ?f2 ''regular''"
    by simp_all
  from set_if_missing_has [OF 2(1) v, of "''light''"] 2(2,3)
  have 3: "nonempty_values ?f3" "dict_has ?f3 ''light''" "dict_has ?f3 ''regular''"
    "dict_has ?f3 ''bold''"
    by simp_all
  from False have "fallback first_candidate font_files = ?f3"
    by (simp add: fallback_def Let_def)
  with 3 show ?thesis
    by (simp add: fontset_complete_def truthy_get)
qed

lemma load_fonts_from_path_complete:
  assumes "load_fonts_from_path env files font_path = (Some fonts, t)"
  shows "fontset_complete fonts"
proof -
  let ?p = "resolve env font_path"
  show ?thesis
  proof (cases "is_file files ?p")
    case True
    with assms have "fonts = [(''bold'', str_path ?p), (''regular'', str_path ?p),
        (''light'', str_path ?p)]"
      by (auto simp: load_fonts_from_path_def Let_def split: if_splits)
    then show ?thesis
      by (simp add: fontset_complete_def dict_get_def str_path_not_Nil)
  next
    case False
    with assms obtain c cs where
      "fonts = fallback c (match_weights weight_patterns (c # cs) [])"
      by (auto simp: load_fonts_from_path_def Let_def split: if_splits list.splits)
    moreover have "nonempty_values (match_weights weight_patterns (c # cs) [])"
      by (rule match_weights_nonempty_values [OF nonempty_values_Nil])
    ultimately show ?thesis
      by (simp add: fallback_complete)
  qed
qed

lemma roboto_fonts_complete: "fontset_complete roboto_fonts"
  by (simp add: fontset_complete_def roboto_fonts_def dict_get_def joinpath_def FONTS_DIR_def)

lemma priority_3_complete: "priority_3 files = (Some fonts, t) \<Longrightarrow> fontset_complete fonts"
  by (auto simp: priority_3_def roboto_fonts_complete split: option.splits)

lemma priority_2_complete:
  "priority_2 env font_path files = (Some fonts, t) \<Longrightarrow> fontset_complete fonts"
  by (auto simp: priority_2_def dest: load_fonts_from_path_complete
      split: option.splits if_splits prod.splits)

lemma priority_1_complete:
  "priority_1 env font_family files = (Returned (Some fonts), files', t) \<Longrightarrow>
   fontset_complete fonts"
  by (auto simp: priority_1_def dest: download_google_font_complete
      split: option.splits if_splits prod.splits outcome.splits)

lemma load_fonts_complete:
  assumes "load_fonts env font_family font_path files = (Returned (Some fonts), files', t)"
  shows "fontset_complete fonts"
proof -
  obtain r1 fs1 t1 where p1: "priority_1 env font_family files = (r1, fs1, t1)"
    by (metis prod_cases3)
  obtain r2 t2 where p2: "priority_2 env font_path fs1 = (r2, t2)" by (metis surj_pair)
  obtain r3 t3 where p3: "priority_3 fs1 = (r3, t3)" by (metis surj_pair)
  from assms p1 p2 p3 consider
    "r1 = Returned (Some fonts)" | "r2 = Some fonts" | "r3 = Some fonts"
    by (auto simp: load_fonts_def split: outcome.splits option.splits)
  then show ?thesis
  proof cases
    case 1
    with p1 show ?thesis by (auto dest: priority_1_complete)
  next
    case 2
    with p2 show ?thesis by (auto dest: priority_2_complete)
  next
    case 3
    with p3 show ?thesis by (auto dest: priority_3_complete)
  qed
qed

text \<open>
  C1. Whenever \<open>download_google_font\<close>, \<open>load_fonts_from_path\<close> or \<open>load_fonts\<close> returns a
  font set and not \<open>None\<close>, the font set binds each of the keys light, regular and bold to
  a path that is not empty: no partly filled mapping reaches the caller.
\<close>

theorem returned_fontset_complete:
  "(download_google_font env font_family weights files = (Returned (Some fonts), files', t)
      \<longrightarrow> fontset_complete fonts) \<and>
   (load_fonts_from_path env files font_path = (Some fonts, t) \<longrightarrow> fontset_complete fonts) \<and>
   (load_fonts env family_arg path_arg files = (Returned (Some fonts), files', t)
      \<longrightarrow> fontset_complete fonts)"
  using download_google_font_complete load_fonts_from_path_complete load_fonts_complete
  by blast

theorem returned_fontset_complete_witness:
  "fst (download_google_font sample_env ''Lato'' (Some [400]) sample_files) =
     Returned (Some [(''regular'', ''fonts/cache/lato_regular.woff2''),
                     (''bold'', ''fonts/cache/lato_regular.woff2''),
                     (''light'', ''fonts/cache/lato_regular.woff2'')]) \<and>
   fontset_complete [(''regular'', ''fonts/cache/lato_regular.woff2''),
                     (''bold'', ''fonts/cache/lato_regular.woff2''),
                     (''light'', ''fonts/cache/lato_regular.woff2'')] \<and>
   fst (load_fonts_from_path sample_env sample_files ''~/d'') =
     Some [(''bold'', ''/d/Bold_400.TTF''), (''regular'', ''/d/Bold_400.TTF''),
           (''light'', ''/d/thin.ttf'')] \<and>
   fontset_complete [(''bold'', ''/d/Bold_400.TTF''), (''regular'', ''/d/Bold_400.TTF''),
                     (''light'', ''/d/thin.ttf'')] \<and>
   fst (load_fonts sample_env None None sample_files) = Returned (Some roboto_fonts) \<and>
   fontset_complete roboto_fonts"
proof -
  let ?d = "download_google_font sample_env ''Lato'' (Some [400]) sample_files"
  have d: "?d = (Returned (Some [(''regular'', ''fonts/cache/lato_regular.woff2''),
                     (''bold'', ''fonts/cache/lato_regular.woff2''),
                     (''light'', ''fonts/cache/lato_regular.woff2'')]),
                 fst (snd ?d), snd (snd ?d))"
    using sample_download by (metis prod.collapse)
  note c1 = returned_fontset_complete [THEN conjunct1, THEN mp, OF d]
  note c2 = returned_fontset_complete [THEN conjunct2, THEN conjunct1, THEN mp, OF sample_local]
  note c3 = returned_fontset_complete [THEN conjunct2, THEN conjunct2, THEN mp, OF sample_default]
  have l: "fst (load_fonts_from_path sample_env sample_files ''~/d'') =
     Some [(''bold'', ''/d/Bold_400.TTF''), (''regular'', ''/d/Bold_400.TTF''),
           (''light'', ''/d/thin.ttf'')]"
    by (simp add: sample_local)
  have r: "fst (load_fonts sample_env None None sample_files) = Returned (Some roboto_fonts)"
    by (simp add: sample_default)
  from sample_download c1 l c2 r c3 show ?thesis by blast
qed

section \<open>The order of the sources\<close>

lemma fontset_complete_not_Nil: "fontset_complete fonts \<Longrightarrow> fonts \<noteq> []"
  by (auto simp: fontset_complete_def dict_get_def)

text \<open>
  C4. When a family other than the bundled one is given and the download returns a font
  set, \<open>load_fonts\<close> returns that font set at once: its result, the files and everything
  it prints and requests are those of the download between the two lines of \<open>load_fonts\<close>,
  whatever the local path is. Nothing of \<open>load_fonts_from_path\<close> happens, also when the
  path is one it would accept.
\<close>

theorem remote_success_skips_local_path:
  assumes "family \<noteq> []" and "lower family \<noteq> ''roboto''"
    and "download_google_font env family None files = (Returned (Some fonts), files', t)"
  shows "load_fonts env (Some family) font_path files =
     (Returned (Some fonts), files',
      Print (Loading_google_font family) # t @ [Print (Font_loaded family)])"
proof -
  from download_google_font_complete [OF assms(3)] have "fonts \<noteq> []"
    by (rule fontset_complete_not_Nil)
  with assms have "priority_1 env (Some family) files =
     (Returned (Some fonts), files',
      Print (Loading_google_font family) # t @ [Print (Font_loaded family)])"
    by (simp add: priority_1_def)
  then show ?thesis by (simp add: load_fonts_def)
qed

theorem remote_success_skips_local_path_witness:
  "''Lato'' \<noteq> [] \<and> lower ''Lato'' \<noteq> ''roboto'' \<and>
   fst (load_fonts_from_path sample_env sample_files ''~/d'') \<noteq> None \<and>
   load_fonts sample_env (Some ''Lato'') (Some ''~/d'') sample_files =
     (Returned (Some [(''light'', ''fonts/cache/lato_light.woff2''),
                      (''regular'', ''fonts/cache/lato_regular.woff2''),
                      (''bold'', ''fonts/cache/lato_bold.woff2'')]),
      sample_files(''fonts/cache/lato_light.woff2'' \<mapsto> File ''wOF2'',
                   ''fonts/cache/lato_regular.woff2'' \<mapsto> File ''wOF2'',
                   ''fonts/cache/lato_bold.woff2'' \<mapsto> File ''wOF2''),
      [Print (Loading_google_font ''Lato''),
       Get_css ''Lato'' [300, 400, 700],
       Print (Using_weight 400 ''light'' 300),
       Print (Downloading ''Lato'' ''light'' 300),
       Get_asset ''https://f.example/r.woff2'',
       Print (Downloading ''Lato'' ''regular'' 400),
       Get_asset ''https://f.example/r.woff2'',
       Print (Using_weight 400 ''bold'' 700),
       Print (Downloading ''Lato'' ''bold'' 700),
       Get_asset ''https://f.example/r.woff2'',
       Print (Font_loaded ''Lato'')])"
proof -
  have h1: "''Lato'' \<noteq> []" by simp
  have h2: "lower ''Lato'' \<noteq> ''roboto''" by (simp add: lower_def)
  have l: "fst (load_fonts_from_path sample_env sample_files ''~/d'') \<noteq> None"
    by (simp add: sample_local)
  from remote_success_skips_local_path [OF h1 h2 sample_download_default, of "Some ''~/d''"]
    h1 h2 l
  show ?thesis by simp
qed


lemma roboto_fonts_paths:
  "roboto_fonts = [(''bold'', ''fonts/Roboto-Bold.ttf''), (''regular'', ''fonts/Roboto-Regular.ttf''),
                   (''light'', ''fonts/Roboto-Light.ttf'')]"
  by (simp add: roboto_fonts_def joinpath_def endswith_def FONTS_DIR_def)

lemma priority_3_eq:
  "fst (priority_3 files) =
     (if files ''fonts/Roboto-Bold.ttf'' \<noteq> None \<and> files ''fonts/Roboto-Regular.ttf'' \<noteq> None \<and>
         files ''fonts/Roboto-Light.ttf'' \<noteq> None
      then Some roboto_fonts else None)"
  by (auto simp: priority_3_def roboto_fonts_paths split: option.splits)

text \<open>
  C5. When neither the family nor the local path has produced fonts, \<open>load_fonts\<close> returns
  the three bundled paths if all three files exist, and \<open>None\<close> if any of them is missing;
  it never returns fewer than the three.
\<close>

theorem bundled_default_all_or_nothing:
  assumes "priority_1 env font_family files = (Returned None, files', t1)"
    and "fst (priority_2 env font_path files') = None"
  shows "fst (load_fonts env font_family font_path files) =
     Returned
       (if files' ''fonts/Roboto-Bold.ttf'' \<noteq> None \<and> files' ''fonts/Roboto-Regular.ttf'' \<noteq> None \<and>
           files' ''fonts/Roboto-Light.ttf'' \<noteq> None
        then Some [(''bold'', ''fonts/Roboto-Bold.ttf''),
                   (''regular'', ''fonts/Roboto-Regular.ttf''),
                   (''light'', ''fonts/Roboto-Light.ttf'')]
        else None)"
proof -
  obtain t2 where p2: "priority_2 env font_path files' = (None, t2)"
    using assms(2) by (cases "priority_2 env font_path files'") auto
  obtain r3 t3 where p3: "priority_3 files' = (r3, t3)" by (metis surj_pair)
  from assms(1) p2 p3 have "fst (load_fonts env font_family font_path files) = Returned r3"
    by (simp add: load_fonts_def)
  moreover from p3 priority_3_eq [of files'] have
    "r3 = (if files' ''fonts/Roboto-Bold.ttf'' \<noteq> None \<and> files' ''fonts/Roboto-Regular.ttf'' \<noteq> None \<and>
         files' ''fonts/Roboto-Light.ttf'' \<noteq> None
      then Some roboto_fonts else None)"
    by simp
  ultimately show ?thesis by (simp add: roboto_fonts_paths)
qed

theorem bundled_default_all_or_nothing_witness:
  "priority_1 sample_env None sample_files = (Returned None, sample_files, []) \<and>
   fst (priority_2 sample_env None sample_files) = None \<and>
   fst (load_fonts sample_env None None sample_files) =
     Returned (Some [(''bold'', ''fonts/Roboto-Bold.ttf''),
                     (''regular'', ''fonts/Roboto-Regular.ttf''),
                     (''light'', ''fonts/Roboto-Light.ttf'')]) \<and>
   priority_1 sample_env None (sample_files(''fonts/Roboto-Light.ttf'' := None))
     = (Returned None, sample_files(''fonts/Roboto-Light.ttf'' := None), []) \<and>
   fst (priority_2 sample_env None (sample_files(''fonts/Roboto-Light.ttf'' := None))) = None \<and>
   fst (load_fonts sample_env None None (sample_files(''fonts/Roboto-Light.ttf'' := None)))
     = Returned None"
proof -
  let ?g = "sample_files(''fonts/Roboto-Light.ttf'' := None)"
  have a1: "priority_1 sample_env None sample_files = (Returned None, sample_files, [])"
    by (simp add: priority_1_def)
  have a2: "fst (priority_2 sample_env None sample_files) = None"
    by (simp add: priority_2_def)
  have b1: "priority_1 sample_env None ?g = (Returned None, ?g, [])"
    by (simp add: priority_1_def)
  have b2: "fst (priority_2 sample_env None ?g) = None"
    by (simp add: priority_2_def)
  from bundled_default_all_or_nothing [OF a1 a2]
  have a3: "fst (load_fonts sample_env None None sample_files) =
     Returned (Some [(''bold'', ''fonts/Roboto-Bold.ttf''),
                     (''regular'', ''fonts/Roboto-Regular.ttf''),
                     (''light'', ''fonts/Roboto-Light.ttf'')])"
    by (simp add: sample_files_def)
  from bundled_default_all_or_nothing [OF b1 b2]
  have b3: "fst (load_fonts sample_env None None ?g) = Returned None"
    by simp
  from a1 a2 a3 b1 b2 b3 show ?thesis by blast
qed


section \<open>Failure of the style-sheet request\<close>

text \<open>
  C8, as stated, fails: a status outside 200..299 that is not an error status is no
  failure for \<open>raise_for_status\<close>. With status 300 and the sample style sheet as the body
  the function returns a font set; with status 304 and an empty body it returns \<open>None\<close>
  and prints no diagnostic.
\<close>

theorem stylesheet_status_outside_2xx_counterexample:
  "\<not> (200 \<le> (300 :: int) \<and> (300 :: int) < 300) \<and>
   fst (download_google_font (sample_env\<lparr>css_reply := \<lambda>family weights. Response 300 sample_css\<rparr>)
          ''Lato'' (Some [400]) sample_files) =
     Returned (Some [(''regular'', ''fonts/cache/lato_regular.woff2''),
                     (''bold'', ''fonts/cache/lato_regular.woff2''),
                     (''light'', ''fonts/cache/lato_regular.woff2'')]) \<and>
   \<not> (200 \<le> (304 :: int) \<and> (304 :: int) < 300) \<and>
   download_google_font (sample_env\<lparr>css_reply := \<lambda>family weights. Response 304 []\<rparr>)
       ''Lato'' (Some [400]) sample_files =
     (Returned None, sample_files, [Get_css ''Lato'' [400]])"
  by (simp add: download_google_font_def requested_weights_def try_body_def sample_env_def
      sample_parse raise_for_status_def weight_step_def weight_key_of_def weight_map_def
      find_weight_url_def dict_get_def cache_path_def joinpath_def FONTS_CACHE_DIR_def
      FONTS_DIR_def endswith_def lower_def replace_char_def isupper_def sample_files_def
      fetch_asset_def fill_weights_def ensure_regular_def duplicate_regular_def dict_has_def
      dict_values_def dict_keys_def min_by_def Let_def parse_css_Nil)

text \<open>
  C8, amended. When the creation of the cache directory does not raise, so that the
  style-sheet request is sent, and the request times out, fails in the network or is
  answered by a status from 400 to 599, the function returns \<open>None\<close>, prints one
  diagnostic naming the exception, changes no file, and raises nothing.
\<close>

theorem stylesheet_failure_returns_none:
  assumes "mkdir_cache env = None"
    and "css_reply env font_family (requested_weights weights) = Raises e \<or>
         (\<exists>status body.
            css_reply env font_family (requested_weights weights) = Response status body \<and>
            400 \<le> status \<and> status < 600 \<and> e = HTTPError status)"
  shows "download_google_font env font_family weights files =
           (Returned None, files,
            [Get_css font_family (requested_weights weights),
             Print (Error_downloading font_family e)]) \<and>
         is_diagnostic (Error_downloading font_family e)"
proof -
  from assms(2) have "try_body env font_family (requested_weights weights) files =
      (Inl e, files, [Get_css font_family (requested_weights weights)])"
    by (auto simp: try_body_def raise_for_status_def)
  with assms(1) show ?thesis
    by (simp add: download_google_font_def)
qed

theorem stylesheet_failure_returns_none_witness:
  "download_google_font (sample_env\<lparr>css_reply := \<lambda>family weights. Raises Timeout\<rparr>)
       ''Lato'' None sample_files =
     (Returned None, sample_files,
      [Get_css ''Lato'' [300, 400, 700], Print (Error_downloading ''Lato'' Timeout)]) \<and>
   download_google_font (sample_env\<lparr>css_reply := \<lambda>family weights. Response 404 ''Not Found''\<rparr>)
       ''Lato'' None sample_files =
     (Returned None, sample_files,
      [Get_css ''Lato'' [300, 400, 700], Print (Error_downloading ''Lato'' (HTTPError 404))])"
proof -
  let ?e1 = "sample_env\<lparr>css_reply := \<lambda>family weights. Raises Timeout\<rparr>"
  let ?e2 = "sample_env\<lparr>css_reply := \<lambda>family weights. Response 404 ''Not Found''\<rparr>"
  have m1: "mkdir_cache ?e1 = None" and m2: "mkdir_cache ?e2 = None"
    by (simp_all add: sample_env_def)
  have r1: "css_reply ?e1 ''Lato'' (requested_weights None) = Raises Timeout \<or>
         (\<exists>status body.
            css_reply ?e1 ''Lato'' (requested_weights None) = Response status body \<and>
            400 \<le> status \<and> status < 600 \<and> Timeout = HTTPError status)"
    by simp
  have r2: "css_reply ?e2 ''Lato'' (requested_weights None) = Raises (HTTPError 404) \<or>
         (\<exists>status body.
            css_reply ?e2 ''Lato'' (requested_weights None) = Response status body \<and>
            400 \<le> status \<and> status < 600 \<and> HTTPError 404 = HTTPError status)"
    by simp
  from stylesheet_failure_returns_none [OF m1 r1, of sample_files]
    stylesheet_failure_returns_none [OF m2 r2, of sample_files]
  show ?thesis by (simp add: requested_weights_def)
qed


section \<open>The cache\<close>

lemma fetch_asset_grows:
  "fetch_asset env url font_path files = Inr files' \<Longrightarrow> files p \<noteq> None \<Longrightarrow> files' p \<noteq> None"
  by (auto simp: fetch_asset_def split: http_result.splits option.splits)

lemma fetch_asset_writes:
  "fetch_asset env url font_path files = Inr files' \<Longrightarrow> files' font_path \<noteq> None"
  by (auto simp: fetch_asset_def split: http_result.splits option.splits)

lemma find_weight_url_quiet:
  "find_weight_url m k w = (u, t) \<Longrightarrow> \<not> list_ex downloads t \<and> \<not> list_ex download_failed t"
  by (auto simp: find_weight_url_def Let_def split: if_splits option.splits)

lemma weight_step_grows:
  assumes "weight_step env fam ns m (ff, fa) w = ((ff', fa'), t)" and "fa p \<noteq> None"
  shows "fa' p \<noteq> None"
  using assms
  by (auto simp: weight_step_def Let_def dest: fetch_asset_grows
      split: prod.splits option.splits if_splits sum.splits)

lemma weights_loop_grows:
  "weights_loop env fam ns m (ff, fa) ws = ((ff', fa'), t) \<Longrightarrow> fa p \<noteq> None \<Longrightarrow> fa' p \<noteq> None"
proof (induction ws arbitrary: ff fa t)
  case Nil
  then show ?case by simp
next
  case (Cons w ws)
  obtain f1 fs1 t1 where s: "weight_step env fam ns m (ff, fa) w = ((f1, fs1), t1)"
    by (metis surj_pair)
  obtain t2 where l: "weights_loop env fam ns m (f1, fs1) ws = ((ff', fa'), t2)"
    using Cons.prems(1) s by (auto split: prod.splits)
  from weight_step_grows [OF s Cons.prems(2)] have "fs1 p \<noteq> None" .
  with Cons.IH [OF l] show ?case .
qed

lemma weight_step_replay:
  assumes step: "weight_step env fam ns m (ff, fa) w = ((ff', fa'), t)"
    and ok: "\<not> list_ex download_failed t"
    and sub: "\<forall>p. fa' p \<noteq> None \<longrightarrow> fb p \<noteq> None"
  shows "\<exists>t'. weight_step env2 fam ns m (ff, fb) w = ((ff', fb), t') \<and> \<not> list_ex downloads t'"
proof -
  obtain u t1 where f: "find_weight_url m (weight_key_of w) w = (u, t1)"
    by (metis surj_pair)
  note q = find_weight_url_quiet [OF f]
  show ?thesis
  proof (cases "truthy u")
    case False
    with step f q show ?thesis
      by (cases u) (auto simp: weight_step_def Let_def)
  next
    case True
    then obtain url where u: "u = Some url" and url: "url \<noteq> []"
      by (cases u) auto
    let ?path = "cache_path ns (weight_key_of w) url"
    have there: "fa' ?path \<noteq> None \<and> ff' = dict_set ff (weight_key_of w) ?path"
    proof (cases "fa ?path = None")
      case False
      with step f u url show ?thesis
        by (auto simp: weight_step_def Let_def)
    next
      case True
      show ?thesis
      proof (cases "fetch_asset env url ?path fa")
        case (Inl e)
        with step f u url True have "Print (Failed_download (weight_key_of w) e) \<in> set t"
          by (auto simp: weight_step_def Let_def)
        then have "list_ex download_failed t"
          by (force simp: list_ex_iff)
        with ok show ?thesis by simp
      next
        case (Inr files')
        with step f u url True fetch_asset_writes [OF Inr] show ?thesis
          by (auto simp: weight_step_def Let_def)
      qed
    qed
    with sub have "fb ?path \<noteq> None" by blast
    with there f u url q show ?thesis
      by (auto simp: weight_step_def Let_def)
  qed
qed

lemma weights_loop_replay:
  "weights_loop env fam ns m (ff, fa) ws = ((ff1, f1), t) \<Longrightarrow>
   \<not> list_ex download_failed t \<Longrightarrow>
   \<forall>p. f1 p \<noteq> None \<longrightarrow> fb p \<noteq> None \<Longrightarrow>
   \<exists>t'. weights_loop env2 fam ns m (ff, fb) ws = ((ff1, fb), t') \<and> \<not> list_ex downloads t'"
proof (induction ws arbitrary: ff fa t)
  case Nil
  then show ?case by simp
next
  case (Cons w ws)
  obtain ff' fa' ts where s: "weight_step env fam ns m (ff, fa) w = ((ff', fa'), ts)"
    by (metis surj_pair)
  obtain tr where l: "weights_loop env fam ns m (ff', fa') ws = ((ff1, f1), tr)"
    and t: "t = ts @ tr"
    using Cons.prems(1) s by (auto split: prod.splits)
  from Cons.prems(2) t have ok: "\<not> list_ex download_failed ts" "\<not> list_ex download_failed tr"
    by (simp_all add: list_ex_iff)
  have "\<forall>p. fa' p \<noteq> None \<longrightarrow> fb p \<noteq> None"
    using weights_loop_grows [OF l] Cons.prems(3) by blast
  from weight_step_replay [OF s ok(1) this, of env2] obtain ts' where
    s2: "weight_step env2 fam ns m (ff, fb) w = ((ff', fb), ts')" and q1: "\<not> list_ex downloads ts'"
    by blast
  from Cons.IH [OF l ok(2) Cons.prems(3)] obtain tr' where
    l2: "weights_loop env2 fam ns m (ff', fb) ws = ((ff1, fb), tr')" and q2: "\<not> list_ex downloads tr'"
    by blast
  from s2 l2 q1 q2 show ?case
    by (auto simp: list_ex_iff)
qed

lemma try_body_replay:
  assumes body: "try_body env fam ws files = (r, files1, t1)"
    and ok: "\<not> list_ex download_failed t1"
    and css: "css_reply env2 fam ws = css_reply env fam ws"
  shows "\<exists>t2. try_body env2 fam ws files1 = (r, files1, t2) \<and> \<not> list_ex downloads t2"
proof (cases "css_reply env fam ws")
  case (Raises e)
  with body css show ?thesis
    by (auto simp: try_body_def)
next
  case (Response status css_content)
  show ?thesis
  proof (cases "raise_for_status status")
    case (Some e)
    with Response body css show ?thesis
      by (auto simp: try_body_def)
  next
    case None
    let ?ns = "lower (replace_char CHR '' '' CHR ''_'' fam)"
    let ?m = "parse_css css_content"
    obtain ff f1 tl where
      loop: "weights_loop env fam ?ns ?m ([], files) ws = ((ff, f1), tl)"
      by (metis surj_pair)
    obtain ff' tf where fill: "fill_weights ff = (ff', tf)" by (metis surj_pair)
    from body Response None loop fill have
      r: "r = Inr (if ff' \<noteq> [] then Some ff' else None)" and f1: "files1 = f1"
      and t1: "t1 = Get_css fam ws # tl @ tf"
      by (simp_all add: try_body_def Let_def)
    from ok t1 have "\<not> list_ex download_failed tl"
      by (simp add: list_ex_iff)
    from weights_loop_replay [OF loop this, of f1 env2] obtain tl' where
      loop2: "weights_loop env2 fam ?ns ?m ([], f1) ws = ((ff, f1), tl')"
      and q: "\<not> list_ex downloads tl'"
      by blast
    have "\<not> list_ex downloads tf"
      using fill
      by (auto simp: fill_weights_def ensure_regular_def duplicate_regular_def Let_def
          split: prod.splits if_splits option.splits)
    with q have "\<not> list_ex downloads (Get_css fam ws # tl' @ tf)"
      by (auto simp: list_ex_iff)
    moreover from Response None css loop2 fill r f1 have
      "try_body env2 fam ws files1 = (r, files1, Get_css fam ws # tl' @ tf)"
      by (simp add: try_body_def Let_def)
    ultimately show ?thesis by blast
  qed
qed

lemma sample_download_timeout:
  "download_google_font (sample_env\<lparr>asset_reply := \<lambda>url. Raises Timeout\<rparr>)
       ''Lato'' (Some [400]) sample_files =
     (Returned None, sample_files,
      [Get_css ''Lato'' [400],
       Print (Downloading ''Lato'' ''regular'' 400),
       Get_asset ''https://f.example/r.woff2'',
       Print (Failed_download ''regular'' Timeout)])"
  by (simp add: download_google_font_def requested_weights_def try_body_def sample_env_def
      sample_parse raise_for_status_def weight_step_def weight_key_of_def weight_map_def
      find_weight_url_def dict_get_def cache_path_def joinpath_def FONTS_CACHE_DIR_def
      FONTS_DIR_def endswith_def lower_def replace_char_def isupper_def sample_files_def
      fetch_asset_def fill_weights_def ensure_regular_def duplicate_regular_def dict_has_def
      dict_values_def dict_keys_def min_by_def Let_def)


text \<open>
  C7, as stated, fails when a download of the first call fails: the file is not written,
  so the second call, on the files the first call has left, does not find the cache path
  and requests the asset again.
\<close>

theorem failed_download_is_repeated_counterexample:
  "snd (snd (download_google_font (sample_env\<lparr>asset_reply := \<lambda>url. Raises Timeout\<rparr>)
       ''Lato'' (Some [400])
       (fst (snd (download_google_font (sample_env\<lparr>asset_reply := \<lambda>url. Raises Timeout\<rparr>)
          ''Lato'' (Some [400]) sample_files))))) =
     [Get_css ''Lato'' [400],
      Print (Downloading ''Lato'' ''regular'' 400),
      Get_asset ''https://f.example/r.woff2'',
      Print (Failed_download ''regular'' Timeout)] \<and>
   fst (snd (download_google_font (sample_env\<lparr>asset_reply := \<lambda>url. Raises Timeout\<rparr>)
          ''Lato'' (Some [400]) sample_files)) ''fonts/cache/lato_regular.woff2'' = None"
  by (simp add: sample_download_timeout) (simp add: sample_files_def)

lemma find_weight_url_trace:
  "find_weight_url m k w = (u, t) \<Longrightarrow> t = [] \<or> (\<exists>c. t = [Print (Using_weight c k w)])"
  by (auto simp: find_weight_url_def Let_def split: if_splits option.splits)

lemma fetch_asset_result:
  "fetch_asset env url font_path files = Inr files' \<Longrightarrow> \<exists>c. files' = files(font_path \<mapsto> File c)"
  by (auto simp: fetch_asset_def split: http_result.splits option.splits)

lemma weight_step_downloads:
  assumes step: "weight_step env fam (lower (replace_char CHR '' '' CHR ''_'' fam)) m (ff, fa) w
                   = ((ff', fa'), t)"
    and ok: "\<not> list_ex download_failed t"
  shows "(\<forall>rest. downloaded_paths (t @ rest) = downloaded_paths t @ downloaded_paths rest) \<and>
         ((downloaded_paths t = [] \<and> filter asset_request t = [] \<and> fa' = fa) \<or>
          (\<exists>p c. downloaded_paths t = [p] \<and> length (filter asset_request t) = 1 \<and>
                 fa p = None \<and> fa' = fa(p \<mapsto> File c)))"
proof -
  let ?ns = "lower (replace_char CHR '' '' CHR ''_'' fam)"
  obtain u t1 where f: "find_weight_url m (weight_key_of w) w = (u, t1)"
    by (metis surj_pair)
  from find_weight_url_trace [OF f] have t1: "t1 = [] \<or> (\<exists>c. t1 = [Print (Using_weight c (weight_key_of w) w)])" .
  show ?thesis
  proof (cases "truthy u")
    case False
    with step f have "t = t1" "fa' = fa"
      by (cases u; auto simp: weight_step_def Let_def)+
    with t1 show ?thesis by auto
  next
    case True
    then obtain url where u: "u = Some url" and url: "url \<noteq> []"
      by (cases u) auto
    let ?path = "cache_path ?ns (weight_key_of w) url"
    show ?thesis
    proof (cases "fa ?path = None")
      case False
      with step f u url have "t = t1 @ [Print (Using_cached fam (weight_key_of w))]" "fa' = fa"
        by (auto simp: weight_step_def Let_def)
      with t1 show ?thesis by auto
    next
      case True
      show ?thesis
      proof (cases "fetch_asset env url ?path fa")
        case (Inl e)
        with step f u url True have "Print (Failed_download (weight_key_of w) e) \<in> set t"
          by (auto simp: weight_step_def Let_def)
        then have "list_ex download_failed t"
          by (force simp: list_ex_iff)
        with ok show ?thesis by simp
      next
        case (Inr files')
        from fetch_asset_result [OF Inr] obtain c where c: "files' = fa(?path \<mapsto> File c)"
          by blast
        from step f u url True Inr have
          t: "t = t1 @ [Print (Downloading fam (weight_key_of w) w), Get_asset url]"
          and fa': "fa' = files'"
          by (auto simp: weight_step_def Let_def)
        from t t1 have "\<forall>rest. downloaded_paths (t @ rest) = downloaded_paths t @ downloaded_paths rest"
          and "downloaded_paths t = [?path]" and "length (filter asset_request t) = 1"
          by auto
        with True c fa' show ?thesis by blast
      qed
    qed
  qed
qed

lemma weights_loop_downloads:
  "weights_loop env fam (lower (replace_char CHR '' '' CHR ''_'' fam)) m (ff, fa) ws
     = ((ff1, f1), t) \<Longrightarrow>
   \<not> list_ex download_failed t \<Longrightarrow>
   (\<forall>rest. downloaded_paths (t @ rest) = downloaded_paths t @ downloaded_paths rest) \<and>
   distinct (downloaded_paths t) \<and>
   (\<forall>p. p \<in> set (downloaded_paths t) \<longleftrightarrow> fa p = None \<and> f1 p \<noteq> None) \<and>
   length (filter asset_request t) = length (downloaded_paths t)"
proof (induction ws arbitrary: ff fa t)
  case Nil
  then show ?case by auto
next
  case (Cons w ws)
  let ?ns = "lower (replace_char CHR '' '' CHR ''_'' fam)"
  obtain ff' fa' ts where s: "weight_step env fam ?ns m (ff, fa) w = ((ff', fa'), ts)"
    by (metis surj_pair)
  obtain tr where l: "weights_loop env fam ?ns m (ff', fa') ws = ((ff1, f1), tr)"
    and t: "t = ts @ tr"
    using Cons.prems(1) s by (auto split: prod.splits)
  from Cons.prems(2) t have ok: "\<not> list_ex download_failed ts" "\<not> list_ex download_failed tr"
    by (simp_all add: list_ex_iff)
  from weight_step_downloads [OF s ok(1)] have
    app: "\<And>rest. downloaded_paths (ts @ rest) = downloaded_paths ts @ downloaded_paths rest"
    and alt: "(downloaded_paths ts = [] \<and> filter asset_request ts = [] \<and> fa' = fa) \<or>
          (\<exists>p c. downloaded_paths ts = [p] \<and> length (filter asset_request ts) = 1 \<and>
                 fa p = None \<and> fa' = fa(p \<mapsto> File c))"
    by blast+
  from Cons.IH [OF l ok(2)] have
    app': "\<And>rest. downloaded_paths (tr @ rest) = downloaded_paths tr @ downloaded_paths rest"
    and d: "distinct (downloaded_paths tr)"
    and new: "\<And>p. p \<in> set (downloaded_paths tr) \<longleftrightarrow> fa' p = None \<and> f1 p \<noteq> None"
    and n: "length (filter asset_request tr) = length (downloaded_paths tr)"
    by blast+
  have 1: "\<forall>rest. downloaded_paths (t @ rest) = downloaded_paths t @ downloaded_paths rest"
    unfolding t by (simp add: app app')
  from alt show ?case
  proof
    assume a: "downloaded_paths ts = [] \<and> filter asset_request ts = [] \<and> fa' = fa"
    with d new n have "distinct (downloaded_paths t)"
      "\<forall>p. p \<in> set (downloaded_paths t) \<longleftrightarrow> fa p = None \<and> f1 p \<noteq> None"
      "length (filter asset_request t) = length (downloaded_paths t)"
      unfolding t by (simp_all add: app)
    with 1 show ?thesis by blast
  next
    assume "\<exists>p c. downloaded_paths ts = [p] \<and> length (filter asset_request ts) = 1 \<and>
                 fa p = None \<and> fa' = fa(p \<mapsto> File c)"
    then obtain p c where dp: "downloaded_paths ts = [p]"
      and one: "length (filter asset_request ts) = 1"
      and absent: "fa p = None" and fa': "fa' = fa(p \<mapsto> File c)"
      by blast
    from fa' have "fa' p \<noteq> None" by simp
    from weights_loop_grows [OF l this] have there: "f1 p \<noteq> None" .
    from new [of p] fa' have notin: "p \<notin> set (downloaded_paths tr)" by simp
    have "distinct (downloaded_paths t)"
      unfolding t using d notin dp by (simp add: app)
    moreover have "\<forall>q. q \<in> set (downloaded_paths t) \<longleftrightarrow> fa q = None \<and> f1 q \<noteq> None"
    proof
      fix q
      show "q \<in> set (downloaded_paths t) \<longleftrightarrow> fa q = None \<and> f1 q \<noteq> None"
      proof (cases "q = p")
        case True
        with absent there dp show ?thesis unfolding t by (simp add: app)
      next
        case False
        with fa' have "fa' q = fa q" by simp
        with new [of q] False dp show ?thesis unfolding t by (simp add: app)
      qed
    qed
    moreover have "length (filter asset_request t) = length (downloaded_paths t)"
      unfolding t using one n dp by (simp add: app)
    ultimately show ?thesis using 1 by blast
  qed
qed

lemma fill_weights_quiet:
  "fill_weights ff = (ff', tf) \<Longrightarrow> downloaded_paths tf = [] \<and> filter asset_request tf = []"
  by (auto simp: fill_weights_def ensure_regular_def duplicate_regular_def Let_def
      split: prod.splits if_splits option.splits)

lemma try_body_downloads:
  assumes body: "try_body env fam ws files = (r, files1, t)"
    and ok: "\<not> list_ex download_failed t"
  shows "distinct (downloaded_paths t) \<and>
         (\<forall>p. p \<in> set (downloaded_paths t) \<longleftrightarrow> files p = None \<and> files1 p \<noteq> None) \<and>
         length (filter asset_request t) = length (downloaded_paths t) \<and>
         (\<forall>rest. downloaded_paths (t @ rest) = downloaded_paths t @ downloaded_paths rest)"
proof (cases "css_reply env fam ws")
  case (Raises e)
  with body show ?thesis
    by (auto simp: try_body_def)
next
  case (Response status css_content)
  show ?thesis
  proof (cases "raise_for_status status")
    case (Some e)
    with Response body show ?thesis
      by (auto simp: try_body_def)
  next
    case None
    let ?ns = "lower (replace_char CHR '' '' CHR ''_'' fam)"
    let ?m = "parse_css css_content"
    obtain ff f1 tl where
      loop: "weights_loop env fam ?ns ?m ([], files) ws = ((ff, f1), tl)"
      by (metis surj_pair)
    obtain ff' tf where fill: "fill_weights ff = (ff', tf)" by (metis surj_pair)
    from body Response None loop fill have f1: "files1 = f1"
      and t: "t = Get_css fam ws # tl @ tf"
      by (simp_all add: try_body_def Let_def)
    from ok t have "\<not> list_ex download_failed tl"
      by (simp add: list_ex_iff)
    from weights_loop_downloads [OF loop this] have
      app: "\<And>rest. downloaded_paths (tl @ rest) = downloaded_paths tl @ downloaded_paths rest"
      and d: "distinct (downloaded_paths tl)"
      and new: "\<forall>p. p \<in> set (downloaded_paths tl) \<longleftrightarrow> files p = None \<and> f1 p \<noteq> None"
      and n: "length (filter asset_request tl) = length (downloaded_paths tl)"
      by blast+
    note q = fill_weights_quiet [OF fill]
    have tf: "\<And>rest. downloaded_paths (tf @ rest) = downloaded_paths rest"
      using fill
      by (auto simp: fill_weights_def ensure_regular_def duplicate_regular_def Let_def
          split: prod.splits if_splits option.splits)
    from d new n q show ?thesis
      unfolding t f1 by (simp add: app tf)
  qed
qed

lemma download_google_font_downloads:
  assumes first: "download_google_font env font_family weights files = (Returned fonts, files1, t1)"
    and ok: "\<not> list_ex download_failed t1"
  shows "distinct (downloaded_paths t1) \<and>
         (\<forall>p. p \<in> set (downloaded_paths t1) \<longleftrightarrow> files p = None \<and> files1 p \<noteq> None) \<and>
         length (filter asset_request t1) = length (downloaded_paths t1)"
proof -
  let ?ws = "requested_weights weights"
  obtain r f t where body: "try_body env font_family ?ws files = (r, f, t)"
    by (metis prod_cases3)
  from first body have f: "f = files1"
    and t1: "t1 = (case r of Inl e \<Rightarrow> t @ [Print (Error_downloading font_family e)] | Inr x \<Rightarrow> t)"
    by (auto simp: download_google_font_def split: option.splits sum.splits)
  from ok t1 have "\<not> list_ex download_failed t"
    by (cases r) (simp_all add: list_ex_iff)
  from try_body_downloads [OF body [unfolded f] this] show ?thesis
    unfolding t1 by (cases r) simp_all
qed

lemma download_google_font_replay:
  assumes first: "download_google_font env font_family weights files = (Returned fonts, files1, t1)"
    and ok: "\<not> list_ex download_failed t1"
    and css: "css_reply env2 font_family (requested_weights weights) =
              css_reply env font_family (requested_weights weights)"
    and mk: "mkdir_cache env2 = None"
  shows "\<exists>t2. download_google_font env2 font_family weights files1 = (Returned fonts, files1, t2) \<and>
              \<not> list_ex downloads t2"
proof -
  let ?ws = "requested_weights weights"
  obtain r f t where body: "try_body env font_family ?ws files = (r, f, t)"
    by (metis prod_cases3)
  from first body have f: "f = files1"
    and fonts: "(case r of Inl e \<Rightarrow> None | Inr x \<Rightarrow> x) = fonts"
    and t1: "t1 = (case r of Inl e \<Rightarrow> t @ [Print (Error_downloading font_family e)] | Inr x \<Rightarrow> t)"
    by (auto simp: download_google_font_def split: option.splits sum.splits)
  from ok t1 have "\<not> list_ex download_failed t"
    by (cases r) (simp_all add: list_ex_iff)
  from try_body_replay [OF body [unfolded f] this css] obtain t' where
    body2: "try_body env2 font_family ?ws files1 = (r, files1, t')"
    and q: "\<not> list_ex downloads t'"
    by blast
  show ?thesis
  proof (cases r)
    case (Inl e)
    with body2 mk fonts q show ?thesis
      by (auto simp: download_google_font_def list_ex_iff)
  next
    case (Inr x)
    with body2 mk fonts q show ?thesis
      by (auto simp: download_google_font_def)
  qed
qed

text \<open>
  C7, amended. Take a call that returns and none of whose asset downloads has failed.
  The cache paths it has downloaded to are pairwise distinct, they are exactly the paths
  that were not on disk before the call and are on disk after it, and the call has sent
  one asset request for each of them and no other: every cache file is downloaded once at
  most. (The same URL may be requested for several weight keys; each request fills another
  cache file.) A second call for the same family and weights, on the files the first call
  has left and with the same reply to the style-sheet request, returns the same result,
  leaves the files as they are, and downloads nothing: every cache path it computes is on
  disk. So each cache file is downloaded by the first call only. The replies to asset
  requests may have changed between the calls; they are not asked for.
\<close>

theorem second_call_uses_cache:
  assumes first: "download_google_font env font_family weights files = (Returned fonts, files1, t1)"
    and ok: "\<not> list_ex download_failed t1"
    and css: "css_reply env2 font_family (requested_weights weights) =
              css_reply env font_family (requested_weights weights)"
    and mk: "mkdir_cache env2 = None"
  shows "distinct (downloaded_paths t1) \<and>
         (\<forall>p. p \<in> set (downloaded_paths t1) \<longleftrightarrow> files p = None \<and> files1 p \<noteq> None) \<and>
         length (filter asset_request t1) = length (downloaded_paths t1) \<and>
         (\<exists>t2. download_google_font env2 font_family weights files1 = (Returned fonts, files1, t2) \<and>
               \<not> list_ex downloads t2)"
  using download_google_font_downloads [OF first ok]
    download_google_font_replay [OF first ok css mk]
  by blast

theorem second_call_uses_cache_witness:
  "download_google_font sample_env ''Lato'' None sample_files =
     (Returned (Some [(''light'', ''fonts/cache/lato_light.woff2''),
                      (''regular'', ''fonts/cache/lato_regular.woff2''),
                      (''bold'', ''fonts/cache/lato_bold.woff2'')]),
      sample_files(''fonts/cache/lato_light.woff2'' \<mapsto> File ''wOF2'',
                   ''fonts/cache/lato_regular.woff2'' \<mapsto> File ''wOF2'',
                   ''fonts/cache/lato_bold.woff2'' \<mapsto> File ''wOF2''),
      [Get_css ''Lato'' [300, 400, 700],
       Print (Using_weight 400 ''light'' 300),
       Print (Downloading ''Lato'' ''light'' 300),
       Get_asset ''https://f.example/r.woff2'',
       Print (Downloading ''Lato'' ''regular'' 400),
       Get_asset ''https://f.example/r.woff2'',
       Print (Using_weight 400 ''bold'' 700),
       Print (Downloading ''Lato'' ''bold'' 700),
       Get_asset ''https://f.example/r.woff2'']) \<and>
   downloaded_paths
      [Get_css ''Lato'' [300, 400, 700],
       Print (Using_weight 400 ''light'' 300),
       Print (Downloading ''Lato'' ''light'' 300),
       Get_asset ''https://f.example/r.woff2'',
       Print (Downloading ''Lato'' ''regular'' 400),
       Get_asset ''https://f.example/r.woff2'',
       Print (Using_weight 400 ''bold'' 700),
       Print (Downloading ''Lato'' ''bold'' 700),
       Get_asset ''https://f.example/r.woff2''] =
     [''fonts/cache/lato_light.woff2'', ''fonts/cache/lato_regular.woff2'',
      ''fonts/cache/lato_bold.woff2''] \<and>
   distinct [''fonts/cache/lato_light.woff2'', ''fonts/cache/lato_regular.woff2'',
             ''fonts/cache/lato_bold.woff2''] \<and>
   (\<forall>p. p \<in> set [''fonts/cache/lato_light.woff2'', ''fonts/cache/lato_regular.woff2'',
                    ''fonts/cache/lato_bold.woff2''] \<longleftrightarrow>
        sample_files p = None \<and>
        (sample_files(''fonts/cache/lato_light.woff2'' \<mapsto> File ''wOF2'',
                      ''fonts/cache/lato_regular.woff2'' \<mapsto> File ''wOF2'',
                      ''fonts/cache/lato_bold.woff2'' \<mapsto> File ''wOF2'')) p \<noteq> None) \<and>
   length (filter asset_request
      [Get_css ''Lato'' [300, 400, 700],
       Print (Using_weight 400 ''light'' 300),
       Print (Downloading ''Lato'' ''light'' 300),
       Get_asset ''https://f.example/r.woff2'',
       Print (Downloading ''Lato'' ''regular'' 400),
       Get_asset ''https://f.example/r.woff2'',
       Print (Using_weight 400 ''bold'' 700),
       Print (Downloading ''Lato'' ''bold'' 700),
       Get_asset ''https://f.example/r.woff2'']) = 3 \<and>
   (\<exists>t2. download_google_font (sample_env\<lparr>asset_reply := \<lambda>url. Raises Timeout\<rparr>) ''Lato'' None
       (sample_files(''fonts/cache/lato_light.woff2'' \<mapsto> File ''wOF2'',
                     ''fonts/cache/lato_regular.woff2'' \<mapsto> File ''wOF2'',
                     ''fonts/cache/lato_bold.woff2'' \<mapsto> File ''wOF2'')) =
     (Returned (Some [(''light'', ''fonts/cache/lato_light.woff2''),
                      (''regular'', ''fonts/cache/lato_regular.woff2''),
                      (''bold'', ''fonts/cache/lato_bold.woff2'')]),
      sample_files(''fonts/cache/lato_light.woff2'' \<mapsto> File ''wOF2'',
                   ''fonts/cache/lato_regular.woff2'' \<mapsto> File ''wOF2'',
                   ''fonts/cache/lato_bold.woff2'' \<mapsto> File ''wOF2''), t2) \<and>
     \<not> list_ex downloads t2)"
proof -
  let ?env2 = "sample_env\<lparr>asset_reply := \<lambda>url. Raises Timeout\<rparr>"
  let ?t1 = "[Get_css ''Lato'' [300, 400, 700],
       Print (Using_weight 400 ''light'' 300),
       Print (Downloading ''Lato'' ''light'' 300),
       Get_asset ''https://f.example/r.woff2'',
       Print (Downloading ''Lato'' ''regular'' 400),
       Get_asset ''https://f.example/r.woff2'',
       Print (Using_weight 400 ''bold'' 700),
       Print (Downloading ''Lato'' ''bold'' 700),
       Get_asset ''https://f.example/r.woff2'']"
  have ok: "\<not> list_ex download_failed ?t1"
    by simp
  have css: "css_reply ?env2 ''Lato'' (requested_weights None) =
             css_reply sample_env ''Lato'' (requested_weights None)"
    by simp
  have mk: "mkdir_cache ?env2 = None" by (simp add: sample_env_def)
  have paths: "downloaded_paths ?t1 =
     [''fonts/cache/lato_light.woff2'', ''fonts/cache/lato_regular.woff2'',
      ''fonts/cache/lato_bold.woff2'']"
    by (simp add: cache_path_def joinpath_def FONTS_CACHE_DIR_def FONTS_DIR_def endswith_def
        lower_def replace_char_def isupper_def Let_def)
  note c = second_call_uses_cache [OF sample_download_default ok css mk, unfolded paths]
  from c have c1: "distinct [''fonts/cache/lato_light.woff2'', ''fonts/cache/lato_regular.woff2'',
             ''fonts/cache/lato_bold.woff2'']" by blast
  from c have c2: "\<forall>p. p \<in> set [''fonts/cache/lato_light.woff2'', ''fonts/cache/lato_regular.woff2'',
                    ''fonts/cache/lato_bold.woff2''] \<longleftrightarrow>
        sample_files p = None \<and>
        (sample_files(''fonts/cache/lato_light.woff2'' \<mapsto> File ''wOF2'',
                      ''fonts/cache/lato_regular.woff2'' \<mapsto> File ''wOF2'',
                      ''fonts/cache/lato_bold.woff2'' \<mapsto> File ''wOF2'')) p \<noteq> None" by blast
  from c have c3: "length (filter asset_request ?t1) = 3" by simp
  from c have c4: "\<exists>t2. download_google_font ?env2 ''Lato'' None
       (sample_files(''fonts/cache/lato_light.woff2'' \<mapsto> File ''wOF2'',
                     ''fonts/cache/lato_regular.woff2'' \<mapsto> File ''wOF2'',
                     ''fonts/cache/lato_bold.woff2'' \<mapsto> File ''wOF2'')) =
     (Returned (Some [(''light'', ''fonts/cache/lato_light.woff2''),
                      (''regular'', ''fonts/cache/lato_regular.woff2''),
                      (''bold'', ''fonts/cache/lato_bold.woff2'')]),
      sample_files(''fonts/cache/lato_light.woff2'' \<mapsto> File ''wOF2'',
                   ''fonts/cache/lato_regular.woff2'' \<mapsto> File ''wOF2'',
                   ''fonts/cache/lato_bold.woff2'' \<mapsto> File ''wOF2''), t2) \<and>
     \<not> list_ex downloads t2" by blast
  from sample_download_default paths c1 c2 c3 c4 show ?thesis by blast
qed


section \<open>Fonts of a directory\<close>

lemma dict_keys_dict_set_new:
  "\<not> dict_has d k \<Longrightarrow> dict_keys (dict_set d k v) = dict_keys d @ [k]"
  by (induction d) (auto simp: dict_keys_def dict_has_def dict_get_def)

lemma match_weights_patterns:
  "match_weights weight_patterns candidates [] =
     (let bold = find (matches [Anywhere ''bold'', Anywhere ''700'', At_start ''b_'']) candidates;
          regular = find (matches [Anywhere ''regular'', Anywhere ''400'', Anywhere ''normal'',
                                   At_start ''r_'']) candidates;
          light = find (matches [Anywhere ''light'', Anywhere ''300'', Anywhere ''thin'',
                                 At_start ''l_'']) candidates
      in (case bold of Some c \<Rightarrow> [(''bold'', str_path c)] | None \<Rightarrow> []) @
         (case regular of Some c \<Rightarrow> [(''regular'', str_path c)] | None \<Rightarrow> []) @
         (case light of Some c \<Rightarrow> [(''light'', str_path c)] | None \<Rightarrow> []))"
  by (simp add: weight_patterns_def Let_def split: option.splits)

lemma match_weights_get:
  assumes "weight_name \<in> set (dict_keys weight_patterns)"
  shows "dict_get (match_weights weight_patterns candidates []) weight_name =
           map_option str_path (find (matches (patterns_of weight_name)) candidates)"
  using assms
  by (auto simp: match_weights_patterns patterns_of_def Let_def dict_get_def dict_keys_def
      weight_patterns_def split: option.splits)

lemma match_weights_keys:
  "dict_keys (match_weights weight_patterns candidates []) =
     filter (\<lambda>weight_name. list_ex (matches (patterns_of weight_name)) candidates)
       [''bold'', ''regular'', ''light'']"
  by (auto simp: match_weights_patterns patterns_of_def Let_def dict_get_def dict_keys_def
      weight_patterns_def list_ex_iff find_None_iff find_Some_iff split: option.splits)

lemma set_if_missing_keeps:
  "dict_get f k' = Some x \<Longrightarrow> dict_get (set_if_missing k v f) k' = Some x"
  by (auto simp: set_if_missing_def dict_get_dict_set dict_has_def)

lemma fallback_keeps:
  assumes "dict_get font_files weight_name = Some x"
  shows "dict_get (fallback first_candidate font_files) weight_name = Some x"
proof -
  from assms have "font_files \<noteq> []" by (auto simp: dict_get_def)
  with assms show ?thesis
    by (simp add: fallback_def Let_def set_if_missing_keeps)
qed

lemma is_dir_not_file: "is_dir files p \<Longrightarrow> \<not> is_file files p \<and> path_exists files p"
  by (auto simp: is_dir_def is_file_def path_exists_def split: option.splits node.splits)

lemma load_fonts_from_path_directory:
  assumes "is_dir files (resolve env font_path)"
    and "font_candidates files (resolve env font_path) = c # cs"
  shows "fst (load_fonts_from_path env files font_path) =
           Some (fallback c (match_weights weight_patterns (c # cs) []))"
proof -
  have "fontset_complete (fallback c (match_weights weight_patterns (c # cs) []))"
    by (rule fallback_complete [OF match_weights_nonempty_values [OF nonempty_values_Nil]])
  then have "fallback c (match_weights weight_patterns (c # cs) []) \<noteq> []"
    by (rule fontset_complete_not_Nil)
  with assms is_dir_not_file [OF assms(1)] show ?thesis
    by (simp add: load_fonts_from_path_def Let_def)
qed

lemma sample_is_dir: "is_dir sample_files (resolve sample_env ''~/d'')"
  by (simp add: is_dir_def sample_env_def sample_files_def str_path_def)

lemma sample_candidates:
  "font_candidates sample_files (resolve sample_env ''~/d'') =
     [[''d'', ''thin.ttf'']] @ [''d'', ''Bold_400.TTF''] # []"
  by (simp add: font_candidates_def iterdir_def is_file_def supported_def suffix_of_def
      path_name_def rfind_dot_def SUPPORTED_EXTS_def lower_def isupper_def sample_env_def
      sample_files_def str_path_def Let_def)

lemma sample_patterns_regular:
  "\<not> matches (patterns_of ''regular'') [''d'', ''thin.ttf''] \<and>
   matches (patterns_of ''regular'') [''d'', ''Bold_400.TTF'']"
  by (simp add: matches_def patterns_of_def weight_patterns_def dict_get_def stem_of_def
      path_name_def rfind_dot_def lower_def isupper_def Let_def)

lemma sample_patterns_others:
  "list_ex (matches (patterns_of ''bold'')) [[''d'', ''thin.ttf''], [''d'', ''Bold_400.TTF'']] \<and>
   list_ex (matches (patterns_of ''light'')) [[''d'', ''thin.ttf''], [''d'', ''Bold_400.TTF'']]"
  by (simp add: matches_def patterns_of_def weight_patterns_def dict_get_def stem_of_def
      path_name_def rfind_dot_def lower_def isupper_def Let_def)

text \<open>
  C6. In a directory the weight names are served in the order bold, regular, light, which
  is the order of the keys of the result of the matching loop. Each name gets the first
  candidate, in the order of enumeration, whose lowercased stem matches one of its
  patterns, and keeps it in the result of \<open>load_fonts_from_path\<close>. The candidates are the
  same list for every name: a candidate taken for one name stays available to the later
  ones.
\<close>

theorem directory_first_match_per_role:
  assumes "is_dir files (resolve env font_path)"
    and "font_candidates files (resolve env font_path) = earlier @ candidate # later"
    and "weight_name \<in> set [''bold'', ''regular'', ''light'']"
    and "\<forall>c \<in> set earlier. \<not> matches (patterns_of weight_name) c"
    and "matches (patterns_of weight_name) candidate"
  shows "(\<exists>fonts. fst (load_fonts_from_path env files font_path) = Some fonts \<and>
            dict_get fonts weight_name = Some (str_path candidate)) \<and>
         dict_get (match_weights weight_patterns (earlier @ candidate # later) []) weight_name
           = Some (str_path candidate) \<and>
         dict_keys (match_weights weight_patterns (earlier @ candidate # later) []) =
           filter (\<lambda>name. list_ex (matches (patterns_of name)) (earlier @ candidate # later))
             [''bold'', ''regular'', ''light'']"
proof -
  let ?cands = "earlier @ candidate # later"
  from assms(3) have k: "weight_name \<in> set (dict_keys weight_patterns)"
    by (simp add: dict_keys_def weight_patterns_def)
  have "find (matches (patterns_of weight_name)) ?cands = Some candidate"
    using assms(4,5) by (rule find_first)
  with match_weights_get [OF k, of ?cands] have
    g: "dict_get (match_weights weight_patterns ?cands []) weight_name = Some (str_path candidate)"
    by simp
  obtain c cs where cc: "?cands = c # cs" by (cases ?cands) auto
  from load_fonts_from_path_directory [OF assms(1), of c cs] assms(2) cc have
    "fst (load_fonts_from_path env files font_path) =
       Some (fallback c (match_weights weight_patterns ?cands []))"
    by simp
  moreover from g have
    "dict_get (fallback c (match_weights weight_patterns ?cands [])) weight_name =
       Some (str_path candidate)"
    by (rule fallback_keeps)
  ultimately show ?thesis
    using g match_weights_keys [of ?cands] by blast
qed

theorem directory_first_match_per_role_witness:
  "is_dir sample_files (resolve sample_env ''~/d'') \<and>
   font_candidates sample_files (resolve sample_env ''~/d'') =
     [[''d'', ''thin.ttf'']] @ [''d'', ''Bold_400.TTF''] # [] \<and>
   \<not> matches (patterns_of ''regular'') [''d'', ''thin.ttf''] \<and>
   matches (patterns_of ''regular'') [''d'', ''Bold_400.TTF''] \<and>
   (\<exists>fonts. fst (load_fonts_from_path sample_env sample_files ''~/d'') = Some fonts \<and>
      dict_get fonts ''regular'' = Some ''/d/Bold_400.TTF'') \<and>
   dict_keys (match_weights weight_patterns [[''d'', ''thin.ttf''], [''d'', ''Bold_400.TTF'']] [])
     = [''bold'', ''regular'', ''light'']"
proof -
  have h3: "''regular'' \<in> set [''bold'', ''regular'', ''light'']" by simp
  have h4: "\<forall>c \<in> set [[''d'', ''thin.ttf'']]. \<not> matches (patterns_of ''regular'') c"
    using sample_patterns_regular by simp
  have h5: "matches (patterns_of ''regular'') [''d'', ''Bold_400.TTF'']"
    using sample_patterns_regular by simp
  from directory_first_match_per_role [OF sample_is_dir sample_candidates h3 h4 h5]
    sample_is_dir sample_candidates sample_patterns_regular sample_patterns_others
  show ?thesis
    by (simp add: str_path_def)
qed

section \<open>Extensions in capitals\<close>

lemma lower_char_idem: "lower_char (lower_char c) = lower_char c"
  by (cases c) (auto simp: isupper_def)

lemma lower_idem: "lower (lower s) = lower s"
  by (simp add: lower_def lower_char_idem)

lemma is_file_exists: "is_file files p \<Longrightarrow> path_exists files p"
  by (auto simp: is_file_def path_exists_def split: option.splits)

text \<open>
  C9. An extension that differs from a supported one only in the case of its letters is
  accepted: a single file with it gives the font set of that file for all three weights,
  and an entry of a directory with it is among the candidates, just as a path with the
  lowercase extension is.
\<close>

theorem extension_case_insensitive:
  assumes "lower ext \<in> set SUPPORTED_EXTS"
  shows "(is_file files (resolve env font_path) \<and> suffix_of (resolve env font_path) = ext \<longrightarrow>
            load_fonts_from_path env files font_path =
              (Some [(''bold'', str_path (resolve env font_path)),
                     (''regular'', str_path (resolve env font_path)),
                     (''light'', str_path (resolve env font_path))],
               [Print (Loaded_font (str_path (resolve env font_path)))])) \<and>
         (f \<in> set (iterdir files d) \<and> is_file files f \<and> suffix_of f = ext \<longrightarrow>
            f \<in> set (font_candidates files d)) \<and>
         (suffix_of p = ext \<and> suffix_of q = lower ext \<longrightarrow> supported p \<and> supported q)"
  using assms
  by (auto simp: load_fonts_from_path_def Let_def supported_def font_candidates_def
      lower_idem is_file_exists)

theorem extension_case_insensitive_witness:
  "lower ''.TTF'' \<in> set SUPPORTED_EXTS \<and>
   is_file sample_files (resolve sample_env ''~/d/Bold_400.TTF'') \<and>
   suffix_of (resolve sample_env ''~/d/Bold_400.TTF'') = ''.TTF'' \<and>
   load_fonts_from_path sample_env sample_files ''~/d/Bold_400.TTF'' =
     (Some [(''bold'', ''/d/Bold_400.TTF''), (''regular'', ''/d/Bold_400.TTF''),
            (''light'', ''/d/Bold_400.TTF'')],
      [Print (Loaded_font ''/d/Bold_400.TTF'')]) \<and>
   [''d'', ''Bold_400.TTF''] \<in> set (iterdir sample_files [''d'']) \<and>
   [''d'', ''Bold_400.TTF''] \<in> set (font_candidates sample_files [''d''])"
proof -
  let ?p = "[''d'', ''Bold_400.TTF'']"
  have h: "lower ''.TTF'' \<in> set SUPPORTED_EXTS"
    by (simp add: lower_def isupper_def SUPPORTED_EXTS_def)
  have r: "resolve sample_env ''~/d/Bold_400.TTF'' = ?p"
    by (simp add: sample_env_def)
  have a: "is_file sample_files ?p"
    by (simp add: is_file_def sample_files_def str_path_def)
  have b: "suffix_of ?p = ''.TTF''"
    by (simp add: suffix_of_def path_name_def rfind_dot_def Let_def)
  have c: "?p \<in> set (iterdir sample_files [''d''])"
    by (simp add: iterdir_def sample_files_def str_path_def)
  note t = extension_case_insensitive [OF h, of sample_files sample_env "''~/d/Bold_400.TTF''"
      ?p "[''d'']" ?p ?p]
  from t h r a b c show ?thesis
    by (simp add: str_path_def)
qed

end
